theory Spec2Isabelle
  imports Complex_Main
begin

section \<open>Floating-point values\<close>

text \<open>
  The program computes on IEEE double precision numbers (Python \<open>float\<close>, numpy
  \<open>float64\<close>). A value is modelled as a finite real number, one of the two infinities,
  or NaN. The operations follow the IEEE rules for the special values (anything with NaN
  is NaN, \<open>inf - inf\<close>, \<open>0 * inf\<close>, \<open>0 / 0\<close> and \<open>inf / inf\<close> are NaN, a
  non-zero finite value divided by zero is an infinity, numpy divides without raising)
  and are exact on finite values: rounding and overflow are not modelled, and zero has
  no sign (zero is read as \<open>+0\<close> where the sign of a quotient depends on it).
\<close>

datatype fl = Fin real | PInf | NInf | NaN

fun fl_neg :: "fl \<Rightarrow> fl" where
  "fl_neg (Fin a) = Fin (- a)"
| "fl_neg PInf = NInf"
| "fl_neg NInf = PInf"
| "fl_neg NaN = NaN"

fun fl_abs :: "fl \<Rightarrow> fl" where
  "fl_abs (Fin a) = Fin \<bar>a\<bar>"
| "fl_abs PInf = PInf"
| "fl_abs NInf = PInf"
| "fl_abs NaN = NaN"

fun fl_add :: "fl \<Rightarrow> fl \<Rightarrow> fl" where
  "fl_add (Fin a) (Fin b) = Fin (a + b)"
| "fl_add (Fin a) PInf = PInf"
| "fl_add (Fin a) NInf = NInf"
| "fl_add PInf (Fin b) = PInf"
| "fl_add NInf (Fin b) = NInf"
| "fl_add PInf PInf = PInf"
| "fl_add NInf NInf = NInf"
| "fl_add PInf NInf = NaN"
| "fl_add NInf PInf = NaN"
| "fl_add NaN y = NaN"
| "fl_add x NaN = NaN"

definition fl_sub :: "fl \<Rightarrow> fl \<Rightarrow> fl" where
  "fl_sub x y = fl_add x (fl_neg y)"

fun fl_mul :: "fl \<Rightarrow> fl \<Rightarrow> fl" where
  "fl_mul (Fin a) (Fin b) = Fin (a * b)"
| "fl_mul (Fin a) PInf = (if a = 0 then NaN else if 0 < a then PInf else NInf)"
| "fl_mul (Fin a) NInf = (if a = 0 then NaN else if 0 < a then NInf else PInf)"
| "fl_mul PInf (Fin b) = (if b = 0 then NaN else if 0 < b then PInf else NInf)"
| "fl_mul NInf (Fin b) = (if b = 0 then NaN else if 0 < b then NInf else PInf)"
| "fl_mul PInf PInf = PInf"
| "fl_mul NInf NInf = PInf"
| "fl_mul PInf NInf = NInf"
| "fl_mul NInf PInf = NInf"
| "fl_mul NaN y = NaN"
| "fl_mul x NaN = NaN"

fun fl_div :: "fl \<Rightarrow> fl \<Rightarrow> fl" where
  "fl_div (Fin a) (Fin b) =
     (if b = 0 then (if a = 0 then NaN else if 0 < a then PInf else NInf)
      else Fin (a / b))"
| "fl_div (Fin a) PInf = Fin 0"
| "fl_div (Fin a) NInf = Fin 0"
| "fl_div PInf (Fin b) = (if 0 \<le> b then PInf else NInf)"
| "fl_div NInf (Fin b) = (if 0 \<le> b then NInf else PInf)"
| "fl_div PInf PInf = NaN"
| "fl_div NInf NInf = NaN"
| "fl_div PInf NInf = NaN"
| "fl_div NInf PInf = NaN"
| "fl_div NaN y = NaN"
| "fl_div x NaN = NaN"

text \<open>Comparisons: every comparison with NaN is false, as \<open>==\<close>, \<open><\<close>, \<open>>\<close> are in Python.\<close>

fun fl_lt :: "fl \<Rightarrow> fl \<Rightarrow> bool" where
  "fl_lt (Fin a) (Fin b) = (a < b)"
| "fl_lt (Fin a) PInf = True"
| "fl_lt NInf (Fin b) = True"
| "fl_lt NInf PInf = True"
| "fl_lt x y = False"

definition fl_gt :: "fl \<Rightarrow> fl \<Rightarrow> bool" where
  "fl_gt x y = fl_lt y x"

fun fl_eq :: "fl \<Rightarrow> fl \<Rightarrow> bool" where
  "fl_eq (Fin a) (Fin b) = (a = b)"
| "fl_eq PInf PInf = True"
| "fl_eq NInf NInf = True"
| "fl_eq x y = False"

definition fl_le :: "fl \<Rightarrow> fl \<Rightarrow> bool" where
  "fl_le x y = (fl_lt x y \<or> fl_eq x y)"

definition fl_ge :: "fl \<Rightarrow> fl \<Rightarrow> bool" where
  "fl_ge x y = fl_le y x"

fun is_nan :: "fl \<Rightarrow> bool" where
  "is_nan NaN = True"
| "is_nan x = False"

section \<open>Risk manager (risk_manager.py, config.py)\<close>

text \<open>
  \<open>RiskManager.__init__\<close> copies five constants of \<open>Config\<close> into the object; the
  record holds them. \<open>Config_risk_manager\<close> is the object built from the class
  \<open>Config\<close> as config.py declares it.
\<close>

record risk_manager =
  max_position_size :: fl
  max_daily_loss :: fl
  stop_loss_pct :: fl
  commission_rate :: fl
  slippage :: fl

definition Config_risk_manager :: risk_manager where
  "Config_risk_manager =
     \<lparr> max_position_size = Fin (1 / 10),
       max_daily_loss = Fin (2 / 100),
       stop_loss_pct = Fin (5 / 100),
       commission_rate = Fin (1 / 1000),
       slippage = Fin (1 / 1000) \<rparr>"

text \<open>
  \<open>validate_trade\<close> returns a pair of a flag and a message. The messages are f-strings
  that format the numbers they report; a message is modelled by its kind and those
  numbers, and \<open>reason_prefix\<close> gives the literal text the f-string starts with.
\<close>

datatype reason =
    Insufficient_cash fl fl
  | Insufficient_shares fl fl
  | Trade_too_small fl
  | Position_too_large fl
  | Trade_valid

fun reason_prefix :: "reason \<Rightarrow> string" where
  "reason_prefix (Insufficient_cash v c) = ''Insufficient cash. Need $''"
| "reason_prefix (Insufficient_shares s h) = ''Insufficient shares. Trying to sell ''"
| "reason_prefix (Trade_too_small v) = ''Trade too small: $''"
| "reason_prefix (Position_too_large v) = ''Position too large: $''"
| "reason_prefix Trade_valid = ''Trade valid''"

text \<open>\<open>current_positions.get(ticker, 0)\<close>: the held shares, 0 for a ticker not held.\<close>

definition positions_get :: "(string \<rightharpoonup> fl) \<Rightarrow> string \<Rightarrow> fl" where
  "positions_get current_positions ticker =
     (case current_positions ticker of None \<Rightarrow> Fin 0 | Some s \<Rightarrow> s)"

definition validate_trade ::
  "risk_manager \<Rightarrow> string \<Rightarrow> fl \<Rightarrow> fl \<Rightarrow> string \<Rightarrow> fl \<Rightarrow> (string \<rightharpoonup> fl) \<Rightarrow> bool \<times> reason"
where
  "validate_trade self ticker shares price trade_type available_cash current_positions =
     (let trade_value = fl_abs (fl_mul shares price) in
      if trade_type = ''buy'' \<and> fl_gt trade_value available_cash
        then (False, Insufficient_cash trade_value available_cash)
      else if trade_type = ''sell'' \<and> fl_gt shares (positions_get current_positions ticker)
        then (False, Insufficient_shares shares (positions_get current_positions ticker))
      else if fl_lt trade_value (Fin 10)
        then (False, Trade_too_small trade_value)
      else if trade_type = ''buy'' \<and>
              fl_gt (fl_mul (fl_add (positions_get current_positions ticker) shares) price)
                    (fl_mul available_cash (max_position_size self))
        then (False,
              Position_too_large
                (fl_mul (fl_add (positions_get current_positions ticker) shares) price))
      else (True, Trade_valid))"

section \<open>Data frames and Python errors\<close>

text \<open>
  An exception of the Python program is a value: \<open>Inl e\<close> is the exception \<open>e\<close> raised,
  \<open>Inr v\<close> the value returned. \<open>and_then\<close> sequences two computations and stops at the
  first exception; \<open>foldE\<close> is a \<open>for\<close> loop over a list whose body may raise.
\<close>

datatype py_error = StopIteration | KeyError string | IndexError | ValueError

definition and_then :: "'e + 'a \<Rightarrow> ('a \<Rightarrow> 'e + 'b) \<Rightarrow> 'e + 'b" where
  "and_then m f = (case m of Inl e \<Rightarrow> Inl e | Inr v \<Rightarrow> f v)"

primrec foldE :: "('a \<Rightarrow> 's \<Rightarrow> 'e + 's) \<Rightarrow> 'a list \<Rightarrow> 's \<Rightarrow> 'e + 's" where
  "foldE f [] s = Inr s"
| "foldE f (x # xs) s = and_then (f x s) (foldE f xs)"

text \<open>
  A pandas data frame: its index (timestamps, as integers) and its named columns. Every
  column holds floating-point values; the integer column \<open>Signal\<close> holds the values
  \<open>-1, 0, 1\<close> as such.
\<close>

record frame =
  index :: "int list"
  columns :: "string \<rightharpoonup> fl list"

text \<open>\<open>data[name]\<close> raises KeyError for a missing column; \<open>series.iloc[i]\<close> with
  \<open>i \<ge> 0\<close> raises IndexError past the end.\<close>

definition col :: "frame \<Rightarrow> string \<Rightarrow> py_error + fl list" where
  "col data name = (case columns data name of None \<Rightarrow> Inl (KeyError name) | Some c \<Rightarrow> Inr c)"

definition iloc :: "fl list \<Rightarrow> nat \<Rightarrow> py_error + fl" where
  "iloc series i = (if i < length series then Inr (series ! i) else Inl IndexError)"

definition dict_get :: "(string \<rightharpoonup> 'v) \<Rightarrow> string \<Rightarrow> py_error + 'v" where
  "dict_get d k = (case d k of None \<Rightarrow> Inl (KeyError k) | Some v \<Rightarrow> Inr v)"

text \<open>
  \<open>frame.loc[label, column] = v\<close> writes \<open>v\<close> at every row whose index label is
  \<open>label\<close> (one row when the labels are distinct).
\<close>

definition loc_set :: "int list \<Rightarrow> int \<Rightarrow> fl \<Rightarrow> fl list \<Rightarrow> fl list" where
  "loc_set idx label v series = map (\<lambda>(l, x). if l = label then v else x) (zip idx series)"

section \<open>Backtester (backtester.py)\<close>

subsection \<open>calculate_metrics\<close>

text \<open>
  \<open>pct_change\<close> is NaN at the first row and \<open>x[i] / x[i-1] - 1\<close> after it;
  \<open>dropna\<close> removes the NaN entries (infinities stay).
\<close>

fun pct_change :: "fl list \<Rightarrow> fl list" where
  "pct_change [] = []"
| "pct_change (x # xs) =
     NaN # map (\<lambda>(prev, cur). fl_sub (fl_div cur prev) (Fin 1)) (zip (x # xs) xs)"

definition dropna :: "fl list \<Rightarrow> fl list" where
  "dropna xs = filter (\<lambda>x. \<not> is_nan x) xs"

definition fl_sum :: "fl list \<Rightarrow> fl" where
  "fl_sum xs = foldl fl_add (Fin 0) xs"

fun fl_sqrt :: "fl \<Rightarrow> fl" where
  "fl_sqrt (Fin a) = (if a < 0 then NaN else Fin (sqrt a))"
| "fl_sqrt PInf = PInf"
| "fl_sqrt NInf = NaN"
| "fl_sqrt NaN = NaN"

text \<open>
  \<open>Series.mean()\<close> and \<open>Series.std()\<close> (sample standard deviation, \<open>ddof = 1\<close>) of a
  series without NaN: the mean of no value is NaN, the standard deviation of fewer than
  two values is NaN.
\<close>

definition series_mean :: "fl list \<Rightarrow> fl" where
  "series_mean xs = (if xs = [] then NaN else fl_div (fl_sum xs) (Fin (real (length xs))))"

definition series_std :: "fl list \<Rightarrow> fl" where
  "series_std xs =
     (if length xs < 2 then NaN
      else fl_sqrt
             (fl_div (fl_sum (map (\<lambda>x. fl_mul (fl_sub x (series_mean xs)) (fl_sub x (series_mean xs))) xs))
                     (Fin (real (length xs - 1)))))"

text \<open>
  \<open>cummax\<close>: the running maximum; a NaN entry stays NaN and does not change the
  running maximum. \<open>series_max\<close> is \<open>Series.max()\<close>, which skips NaN and is NaN when
  nothing is left.
\<close>

definition fl_max :: "fl \<Rightarrow> fl \<Rightarrow> fl" where
  "fl_max x y = (if fl_lt x y then y else x)"

fun cummax_from :: "fl option \<Rightarrow> fl list \<Rightarrow> fl list" where
  "cummax_from m [] = []"
| "cummax_from m (x # xs) =
     (if is_nan x then NaN # cummax_from m xs
      else (case m of
              None \<Rightarrow> x # cummax_from (Some x) xs
            | Some y \<Rightarrow> fl_max y x # cummax_from (Some (fl_max y x)) xs))"

definition cummax :: "fl list \<Rightarrow> fl list" where
  "cummax xs = cummax_from None xs"

definition series_max :: "fl list \<Rightarrow> fl" where
  "series_max xs = (case dropna xs of [] \<Rightarrow> NaN | y # ys \<Rightarrow> foldl fl_max y ys)"

record portfolio =
  p_index :: "int list"
  Holdings :: "fl list"
  Cash :: "fl list"
  Total :: "fl list"

record metrics =
  sharpe_ratio :: fl
  max_drawdown :: fl

definition calculate_metrics :: "portfolio \<Rightarrow> metrics" where
  "calculate_metrics p =
     (let returns = dropna (pct_change (Total p)) in
      if returns = [] \<or> fl_eq (series_std returns) (Fin 0)
        then \<lparr> sharpe_ratio = Fin 0, max_drawdown = Fin 0 \<rparr>
      else
        let sharpe = fl_mul (fl_div (series_mean returns) (series_std returns)) (Fin (sqrt 252));
            drawdown = map (\<lambda>(m, x). fl_div (fl_sub m x) m) (zip (cummax (Total p)) (Total p));
            mdd = (if drawdown \<noteq> [] then series_max drawdown else Fin 0)
        in \<lparr> sharpe_ratio = sharpe, max_drawdown = mdd \<rparr>)"

subsection \<open>The replay loop\<close>

text \<open>
  A trade record is the dictionary appended to \<open>trades\<close>; its keys \<open>date\<close>,
  \<open>ticker\<close>, \<open>action\<close>, \<open>shares\<close>, \<open>price\<close>, \<open>value\<close> are the fields below.
\<close>

datatype action = BUY | SELL

record trade =
  t_date :: int
  t_ticker :: string
  t_action :: action
  t_shares :: fl
  t_price :: fl
  t_value :: fl

text \<open>
  The variables the body of the inner loop (one instrument of one timestep) reads and
  writes: the dictionary \<open>shares\<close>, \<open>holdings_value\<close>, \<open>current_cash\<close> and the list
  \<open>trades\<close>.
\<close>

record step_state =
  shares :: "string \<rightharpoonup> fl"
  holdings_value :: fl
  current_cash :: fl
  trades :: "trade list"

text \<open>
  The body of \<open>for ticker, data in data_dict.items()\<close> at row \<open>i\<close>, whose index
  label is \<open>date\<close>. The BUY branch reads \<open>current_cash\<close>, the variable the branch
  itself (and the SELL branch) updates. The operations are those of the first section,
  exact on finite values: in the program the quotient \<open>alloc_cash / price\<close> and the
  product \<open>shares * price\<close> are rounded, so that \<open>trade_value\<close> can differ from
  \<open>alloc_cash\<close> in its last bits (\<open>100 / 11 * 11\<close> is \<open>100.00000000000001\<close> in
  double precision). The properties of the running cash proved below are relations
  between the values stored, and hold for the rounded operations as well.
\<close>

definition ticker_step ::
  "(string \<rightharpoonup> fl) \<Rightarrow> int \<Rightarrow> nat \<Rightarrow> string \<times> frame \<Rightarrow> step_state \<Rightarrow> py_error + step_state"
where
  "ticker_step weights date i td st =
     (case td of (ticker, data) \<Rightarrow>
      and_then (col data ''Position'') (\<lambda>position.
      and_then (iloc position i) (\<lambda>p.
        if fl_eq p (Fin 2) then
          and_then (dict_get weights ticker) (\<lambda>w.
          and_then (col data ''Close'') (\<lambda>close.
          and_then (iloc close i) (\<lambda>c.
            let alloc_cash = fl_mul (current_cash st) w;
                sh = fl_div alloc_cash c;
                trade_value = fl_mul sh c
            in Inr (st\<lparr> shares := (shares st)(ticker \<mapsto> sh),
                        holdings_value := fl_add (holdings_value st) trade_value,
                        current_cash := fl_sub (current_cash st) trade_value,
                        trades := trades st @
                          [\<lparr> t_date = date, t_ticker = ticker, t_action = BUY,
                             t_shares = sh, t_price = c, t_value = trade_value \<rparr>] \<rparr>))))
        else if fl_eq p (Fin (- 2)) then
          and_then (dict_get (shares st) ticker) (\<lambda>sh.
          and_then (col data ''Close'') (\<lambda>close.
          and_then (iloc close i) (\<lambda>c.
            let trade_value = fl_mul sh c
            in Inr (st\<lparr> shares := (shares st)(ticker \<mapsto> Fin 0),
                        current_cash := fl_add (current_cash st) trade_value,
                        trades := trades st @
                          [\<lparr> t_date = date, t_ticker = ticker, t_action = SELL,
                             t_shares = sh, t_price = c, t_value = trade_value \<rparr>] \<rparr>))))
        else
          and_then (dict_get (shares st) ticker) (\<lambda>sh.
          and_then (col data ''Close'') (\<lambda>close.
          and_then (iloc close i) (\<lambda>c.
            Inr (st\<lparr> holdings_value := fl_add (holdings_value st) (fl_mul sh c) \<rparr>)))))))"

text \<open>
  The state of the outer loop: the ledger, the share counts and the trade log. Its body
  at row \<open>i\<close> starts from \<open>holdings_value = 0.0\<close> and the cash of row \<open>i - 1\<close>, runs
  the inner loop over the instruments in the dictionary's order, and writes the three
  columns of the row labelled \<open>portfolio.index[i]\<close>.
\<close>

record bt_state =
  ledger :: portfolio
  held :: "string \<rightharpoonup> fl"
  trade_log :: "trade list"

definition time_step ::
  "(string \<rightharpoonup> fl) \<Rightarrow> (string \<times> frame) list \<Rightarrow> nat \<Rightarrow> bt_state \<Rightarrow> py_error + bt_state"
where
  "time_step weights data_dict i s =
     and_then (iloc (Cash (ledger s)) (i - 1)) (\<lambda>cash0.
     and_then
       (foldE (ticker_step weights (p_index (ledger s) ! i) i) data_dict
          \<lparr> shares = held s, holdings_value = Fin 0, current_cash = cash0,
            trades = trade_log s \<rparr>)
       (\<lambda>st.
          let p = ledger s; idx = p_index p; label = idx ! i in
          Inr \<lparr> ledger = p\<lparr> Holdings := loc_set idx label (holdings_value st) (Holdings p),
                              Cash := loc_set idx label (current_cash st) (Cash p),
                              Total := loc_set idx label
                                         (fl_add (current_cash st) (holdings_value st)) (Total p) \<rparr>,
                held = shares st,
                trade_log = trades st \<rparr>))"

text \<open>
  The setup of \<open>backtester\<close> and its loop. \<open>data_dict\<close> is the dictionary in iteration
  order; \<open>next(iter(data_dict.values()))\<close> raises StopIteration when it is empty.
  The default weights are \<open>1 / len(data_dict)\<close> for every instrument.
\<close>

definition default_weights :: "(string \<times> frame) list \<Rightarrow> (string \<rightharpoonup> fl)" where
  "default_weights data_dict =
     map_of (map (\<lambda>(ticker, data). (ticker, fl_div (Fin 1) (Fin (real (length data_dict)))))
               data_dict)"

definition initial_portfolio :: "int list \<Rightarrow> fl \<Rightarrow> portfolio" where
  "initial_portfolio idx initial_cash =
     \<lparr> p_index = idx,
       Holdings = replicate (length idx) (Fin 0),
       Cash = replicate (length idx) initial_cash,
       Total = replicate (length idx) initial_cash \<rparr>"

definition backtester_run ::
  "(string \<times> frame) list \<Rightarrow> fl \<Rightarrow> (string \<rightharpoonup> fl) option \<Rightarrow> py_error + bt_state"
where
  "backtester_run data_dict initial_cash weights =
     (case data_dict of
        [] \<Rightarrow> Inl StopIteration
      | (ticker0, data0) # rest \<Rightarrow>
          let p0 = initial_portfolio (index data0) initial_cash;
              shares0 = map_of (map (\<lambda>(ticker, data). (ticker, Fin 0)) data_dict);
              ws = (case weights of None \<Rightarrow> default_weights data_dict | Some w \<Rightarrow> w)
          in foldE (time_step ws data_dict) [1 ..< length (p_index p0)]
               \<lparr> ledger = p0, held = shares0, trade_log = [] \<rparr>)"

subsection \<open>calculate_trade_statistics and the result of backtester\<close>

record trade_stats =
  total_trades :: nat
  win_rate :: fl
  avg_trade :: fl
  total_buys :: nat
  total_sells :: nat
  avg_buy_price :: fl
  avg_sell_price :: fl

definition calculate_trade_statistics :: "trade list \<Rightarrow> portfolio \<Rightarrow> py_error + trade_stats" where
  "calculate_trade_statistics trs p =
     (if trs = [] then
        Inr \<lparr> total_trades = 0, win_rate = Fin 0, avg_trade = Fin 0, total_buys = 0,
              total_sells = 0, avg_buy_price = Fin 0, avg_sell_price = Fin 0 \<rparr>
      else
        let buy_trades = filter (\<lambda>t. t_action t = BUY) trs;
            sell_trades = filter (\<lambda>t. t_action t = SELL) trs;
            total_trade_value = fl_sum (map t_value trs);
            avg = (if 0 < length trs then fl_div total_trade_value (Fin (real (length trs)))
                   else Fin 0)
        in
        and_then (iloc (Total p) 0) (\<lambda>initial_value.
        and_then (iloc (Total p) (length (Total p) - 1)) (\<lambda>final_value.
          let portfolio_return = fl_div (fl_sub final_value initial_value) initial_value in
          Inr \<lparr> total_trades = length trs,
                win_rate = (if fl_gt portfolio_return (Fin 0) then Fin 100 else Fin 0),
                avg_trade = avg,
                total_buys = length buy_trades,
                total_sells = length sell_trades,
                avg_buy_price =
                  (if buy_trades \<noteq> []
                   then fl_div (fl_sum (map t_price buy_trades)) (Fin (real (length buy_trades)))
                   else Fin 0),
                avg_sell_price =
                  (if sell_trades \<noteq> []
                   then fl_div (fl_sum (map t_price sell_trades)) (Fin (real (length sell_trades)))
                   else Fin 0) \<rparr>)))"

definition backtester ::
  "(string \<times> frame) list \<Rightarrow> fl \<Rightarrow> (string \<rightharpoonup> fl) option
     \<Rightarrow> py_error + (portfolio \<times> metrics \<times> trade_stats)"
where
  "backtester data_dict initial_cash weights =
     and_then (backtester_run data_dict initial_cash weights) (\<lambda>s.
     and_then (calculate_trade_statistics (trade_log s) (ledger s)) (\<lambda>ts.
       Inr (ledger s, calculate_metrics (ledger s), ts)))"

section \<open>Strategies (strategy.py)\<close>

subsection \<open>Series operations of pandas and numpy\<close>

text \<open>
  \<open>Series.diff()\<close>: NaN at the first row, \<open>x[i] - x[i-1]\<close> after it.
\<close>

definition diff :: "fl list \<Rightarrow> fl list" where
  "diff xs = (case xs of [] \<Rightarrow> []
              | x # rest \<Rightarrow> NaN # map (\<lambda>(prev, cur). fl_sub cur prev) (zip xs rest))"

text \<open>
  \<open>rolling(window=w)\<close>: a negative window raises ValueError; \<open>min_periods\<close> is the
  window, so the value at row \<open>i\<close> is NaN unless the \<open>w\<close> rows ending at \<open>i\<close> exist
  and hold no NaN (and \<open>w > 0\<close>). The mean and the sample standard deviation of the
  window are taken exactly; pandas computes them by a running sum, whose rounding is not
  modelled.
\<close>

definition window_at :: "nat \<Rightarrow> fl list \<Rightarrow> nat \<Rightarrow> fl list" where
  "window_at w xs i = take w (drop (i + 1 - w) xs)"

definition rolling :: "(fl list \<Rightarrow> fl) \<Rightarrow> int \<Rightarrow> fl list \<Rightarrow> py_error + fl list" where
  "rolling agg w xs =
     (if w < 0 then Inl ValueError
      else Inr (map (\<lambda>i. if w = 0 \<or> i + 1 < nat w \<or> list_ex is_nan (window_at (nat w) xs i)
                          then NaN else agg (window_at (nat w) xs i))
                  [0 ..< length xs]))"

definition rolling_mean :: "int \<Rightarrow> fl list \<Rightarrow> py_error + fl list" where
  "rolling_mean = rolling series_mean"

definition rolling_std :: "int \<Rightarrow> fl list \<Rightarrow> py_error + fl list" where
  "rolling_std = rolling series_std"

text \<open>
  \<open>ewm(span=s).mean()\<close> with the defaults \<open>adjust=True\<close>, \<open>ignore_na=False\<close>,
  \<open>min_periods=0\<close>: a span below 1 raises ValueError; \<open>alpha = 2 / (s + 1)\<close>. The
  function follows pandas' loop: \<open>weighted\<close> is the running average and \<open>old_wt\<close> the
  weight it carries; a NaN input decays the weight and repeats the last average.
\<close>

fun ewm_from :: "real \<Rightarrow> fl \<Rightarrow> real \<Rightarrow> fl list \<Rightarrow> fl list" where
  "ewm_from alpha weighted old_wt [] = []"
| "ewm_from alpha weighted old_wt (cur # rest) =
     (if \<not> is_nan weighted then
        (if \<not> is_nan cur then
           (let w' = fl_div (fl_add (fl_mul (Fin (old_wt * (1 - alpha))) weighted) cur)
                            (Fin (old_wt * (1 - alpha) + 1))
            in w' # ewm_from alpha w' (old_wt * (1 - alpha) + 1) rest)
         else weighted # ewm_from alpha weighted (old_wt * (1 - alpha)) rest)
      else if \<not> is_nan cur then cur # ewm_from alpha cur old_wt rest
      else NaN # ewm_from alpha weighted old_wt rest)"

definition ewm_mean :: "int \<Rightarrow> fl list \<Rightarrow> py_error + fl list" where
  "ewm_mean span_arg xs =
     (if span_arg < 1 then Inl ValueError
      else (case xs of [] \<Rightarrow> Inr []
            | x # rest \<Rightarrow> Inr (x # ewm_from (2 / (real_of_int span_arg + 1)) x 1 rest)))"

text \<open>
  \<open>index >= index[w]\<close> is the mask of the valid rows; \<open>series[mask]\<close> selects the rows
  where the mask is true, and \<open>data.loc[mask, column] = values\<close> writes the values, in
  order, at those rows.
\<close>

definition valid_mask :: "int list \<Rightarrow> nat \<Rightarrow> bool list" where
  "valid_mask idx w = map (\<lambda>l. idx ! w \<le> l) idx"

definition select :: "bool list \<Rightarrow> 'a list \<Rightarrow> 'a list" where
  "select vmask xs = map snd (filter fst (zip vmask xs))"

fun scatter :: "bool list \<Rightarrow> 'a list \<Rightarrow> 'a list \<Rightarrow> 'a list" where
  "scatter (True # vmask) (v # vs) (x # xs) = v # scatter vmask vs xs"
| "scatter (False # vmask) vs (x # xs) = x # scatter vmask vs xs"
| "scatter vmask vs xs = xs"

definition set_col :: "string \<Rightarrow> fl list \<Rightarrow> frame \<Rightarrow> frame" where
  "set_col name series data = data\<lparr> columns := (columns data)(name \<mapsto> series) \<rparr>"

text \<open>
  The last three statements of every \<open>generate_signals\<close>: \<open>Position\<close> is the difference
  of \<open>Signal\<close>; then the entries equal to 1 become 2, and then the entries equal to -1
  become -2. Every other entry stays as the difference left it.
\<close>

definition replace_eq :: "fl \<Rightarrow> fl \<Rightarrow> fl list \<Rightarrow> fl list" where
  "replace_eq old new xs = map (\<lambda>x. if fl_eq x old then new else x) xs"

definition position_changes :: "frame \<Rightarrow> py_error + frame" where
  "position_changes data =
     and_then (col data ''Signal'') (\<lambda>signal.
       Inr (set_col ''Position''
              (replace_eq (Fin (- 1)) (Fin (- 2)) (replace_eq (Fin 1) (Fin 2) (diff signal)))
              data))"

subsection \<open>The four strategies\<close>

text \<open>
  A strategy object is its class and the parameters its constructor stores. Window
  parameters are Python integers; thresholds and the band width are numbers.
\<close>

datatype strategy =
    SMACrossoverStrategy int int
  | RSIStrategy int fl fl
  | MACDStrategy int int int
  | BollingerBandsStrategy int fl

text \<open>
  The relative strength index of \<open>RSIStrategy.generate_signals\<close>: the rolling means of
  the gains and of the losses of \<open>Close\<close>, their quotient \<open>rs\<close>, and
  \<open>100 - 100 / (1 + rs)\<close>.
\<close>

definition rsi_gain :: "int \<Rightarrow> fl list \<Rightarrow> py_error + fl list" where
  "rsi_gain window close =
     rolling_mean window (map (\<lambda>d. if fl_gt d (Fin 0) then d else Fin 0) (diff close))"

definition rsi_loss :: "int \<Rightarrow> fl list \<Rightarrow> py_error + fl list" where
  "rsi_loss window close =
     rolling_mean window
       (map fl_neg (map (\<lambda>d. if fl_lt d (Fin 0) then d else Fin 0) (diff close)))"

definition rsi_of :: "fl \<Rightarrow> fl \<Rightarrow> fl" where
  "rsi_of gain loss = fl_sub (Fin 100) (fl_div (Fin 100) (fl_add (Fin 1) (fl_div gain loss)))"

definition rsi_values :: "int \<Rightarrow> fl list \<Rightarrow> py_error + fl list" where
  "rsi_values window close =
     and_then (rsi_gain window close) (\<lambda>gain.
     and_then (rsi_loss window close) (\<lambda>loss.
       Inr (map (\<lambda>(g, l). rsi_of g l) (zip gain loss))))"

text \<open>
  The body of \<open>generate_signals\<close>, as a function of the frame \<open>data\<close> names after
  \<open>data = data.copy()\<close>: each \<open>data[name] = series\<close> is a \<open>set_col\<close>. The signals of
  the valid rows are computed from the selected rows and written back at them.
\<close>

definition signals_body :: "strategy \<Rightarrow> frame \<Rightarrow> py_error + frame" where
  "signals_body strat data0 =
     (case strat of
        SMACrossoverStrategy short_window long_window \<Rightarrow>
          and_then (col data0 ''Close'') (\<lambda>close.
          and_then (rolling_mean short_window close) (\<lambda>sma_short.
          and_then (rolling_mean long_window close) (\<lambda>sma_long.
            let data1 = set_col ''SMA_long'' sma_long (set_col ''SMA_short'' sma_short data0);
                zero = replicate (length (index data1)) (Fin 0);
                signal =
                  (if int (length (index data1)) > long_window then
                     let vmask = valid_mask (index data1) (nat long_window);
                         signals = map (\<lambda>(s, l). if fl_gt s l then Fin 1 else Fin (- 1))
                                     (zip (select vmask sma_short) (select vmask sma_long))
                     in scatter vmask signals zero
                   else zero)
            in position_changes (set_col ''Signal'' signal data1))))
      | RSIStrategy window overbought oversold \<Rightarrow>
          and_then (col data0 ''Close'') (\<lambda>close.
          and_then (rsi_values window close) (\<lambda>rsi.
            let data1 = set_col ''RSI'' rsi data0;
                zero = replicate (length (index data1)) (Fin 0);
                signal =
                  (if int (length (index data1)) > window then
                     let vmask = valid_mask (index data1) (nat window);
                         signals = map (\<lambda>r. if fl_lt r oversold then Fin 1
                                              else if fl_gt r overbought then Fin (- 1)
                                              else Fin 0)
                                     (select vmask rsi)
                     in scatter vmask signals zero
                   else zero)
            in position_changes (set_col ''Signal'' signal data1)))
      | MACDStrategy fast_period slow_period signal_period \<Rightarrow>
          and_then (col data0 ''Close'') (\<lambda>close.
          and_then (ewm_mean fast_period close) (\<lambda>exp1.
          and_then (ewm_mean slow_period close) (\<lambda>exp2.
            let macd = map (\<lambda>(a, b). fl_sub a b) (zip exp1 exp2) in
            and_then (ewm_mean signal_period macd) (\<lambda>signal_line.
              let histogram = map (\<lambda>(a, b). fl_sub a b) (zip macd signal_line);
                  data1 = set_col ''MACD_Histogram'' histogram
                            (set_col ''Signal_Line'' signal_line (set_col ''MACD'' macd data0));
                  zero = replicate (length (index data1)) (Fin 0);
                  signal =
                    (if int (length (index data1)) > slow_period then
                       let vmask = valid_mask (index data1) (nat slow_period);
                           signals =
                             map (\<lambda>(m, s, h).
                                    if fl_gt m s \<and> fl_gt h (Fin 0) then Fin 1
                                    else if fl_lt m s \<and> fl_lt h (Fin 0) then Fin (- 1)
                                    else Fin 0)
                               (zip (select vmask macd)
                                  (zip (select vmask signal_line) (select vmask histogram)))
                       in scatter vmask signals zero
                     else zero)
              in position_changes (set_col ''Signal'' signal data1)))))
      | BollingerBandsStrategy window num_std \<Rightarrow>
          and_then (col data0 ''Close'') (\<lambda>close.
          and_then (rolling_mean window close) (\<lambda>bb_middle.
          and_then (rolling_std window close) (\<lambda>bb_std.
            let bb_upper = map (\<lambda>(m, s). fl_add m (fl_mul s num_std)) (zip bb_middle bb_std);
                bb_lower = map (\<lambda>(m, s). fl_sub m (fl_mul s num_std)) (zip bb_middle bb_std);
                data1 = set_col ''BB_Lower'' bb_lower
                          (set_col ''BB_Upper'' bb_upper (set_col ''BB_Middle'' bb_middle data0));
                zero = replicate (length (index data1)) (Fin 0);
                signal =
                  (if int (length (index data1)) > window then
                     let vmask = valid_mask (index data1) (nat window);
                         signals =
                           map (\<lambda>(c, l, u).
                                  if fl_le c l then Fin 1
                                  else if fl_ge c u then Fin (- 1)
                                  else Fin 0)
                             (zip (select vmask close)
                                (zip (select vmask bb_lower) (select vmask bb_upper)))
                     in scatter vmask signals zero
                   else zero)
            in position_changes (set_col ''Signal'' signal data1)))))"

subsection \<open>Objects and the copy\<close>

text \<open>
  Data frames are objects: the heap is the list of the frames allocated so far and a
  reference is a position in it. \<open>data.copy()\<close> (a deep copy, the default) allocates a
  new frame with the contents of the old one; frames share no data.
  \<open>generate_signals\<close> rebinds \<open>data\<close> to the copy, runs its body on it and returns the
  reference of the copy. When the body raises, the copy is unreachable; the heap keeps
  it as allocated.
\<close>

type_synonym heap = "frame list"

definition df_copy :: "nat \<Rightarrow> heap \<Rightarrow> nat \<times> heap" where
  "df_copy r h = (length h, h @ [h ! r])"

definition generate_signals :: "strategy \<Rightarrow> nat \<Rightarrow> heap \<Rightarrow> (py_error + nat) \<times> heap" where
  "generate_signals strat r h =
     (case df_copy r h of (d, h1) \<Rightarrow>
        (case signals_body strat (h1 ! d) of
           Inl e \<Rightarrow> (Inl e, h1)
         | Inr data \<Rightarrow> (Inr d, h1[d := data])))"

section \<open>Invariants and example inputs\<close>

text \<open>
  The ledger is well formed when its three columns are as long as its index and every
  \<open>Total\<close> entry is the sum of the \<open>Cash\<close> and \<open>Holdings\<close> entries of its row.
  \<open>row0_is c p\<close> says that the first row of \<open>p\<close> is the initial row with cash \<open>c\<close>.
\<close>

definition ledger_ok :: "portfolio \<Rightarrow> bool" where
  "ledger_ok p \<longleftrightarrow>
     length (Holdings p) = length (p_index p) \<and> length (Cash p) = length (p_index p) \<and>
     length (Total p) = length (p_index p) \<and>
     Total p = map (\<lambda>(c, h). fl_add c h) (zip (Cash p) (Holdings p))"

definition row0_is :: "fl \<Rightarrow> portfolio \<Rightarrow> bool" where
  "row0_is c p \<longleftrightarrow> Cash p ! 0 = c \<and> Holdings p ! 0 = Fin 0 \<and> Total p ! 0 = c"

text \<open>One instrument over three days: a BUY on the second day, a SELL on the third.\<close>

definition example_one_ticker :: "(string \<times> frame) list" where
  "example_one_ticker =
     [(''A'', \<lparr> index = [0, 1, 2],
                columns = [''Close'' \<mapsto> [Fin 10, Fin 10, Fin 20],
                           ''Position'' \<mapsto> [NaN, Fin 2, Fin (- 2)]] \<rparr>)]"

text \<open>
  The values a \<open>Signal\<close> column holds, and what every \<open>generate_signals\<close> leaves in its
  result \<open>data'\<close> for an input \<open>data\<close>: the index of the input, a \<open>Signal\<close> column of
  its length whose entries are \<open>-1\<close>, \<open>0\<close> or \<open>1\<close>, and the \<open>Position\<close> column derived
  from it. \<open>price_frame\<close> is a frame with the rows \<open>0, 1, ...\<close> and the column \<open>Close\<close>.
\<close>

definition is_regime :: "fl \<Rightarrow> bool" where
  "is_regime x \<longleftrightarrow> x = Fin 1 \<or> x = Fin 0 \<or> x = Fin (- 1)"

definition signal_ok :: "frame \<Rightarrow> frame \<Rightarrow> bool" where
  "signal_ok data data' \<longleftrightarrow>
     index data' = index data \<and>
     (\<exists>signal. columns data' ''Signal'' = Some signal \<and> length signal = length (index data)
        \<and> list_all is_regime signal
        \<and> columns data' ''Position'' =
            Some (replace_eq (Fin (- 1)) (Fin (- 2)) (replace_eq (Fin 1) (Fin 2) (diff signal))))"

definition price_frame :: "fl list \<Rightarrow> frame" where
  "price_frame close = \<lparr> index = map int [0 ..< length close], columns = [''Close'' \<mapsto> close] \<rparr>"

text \<open>
  The trade event of an instrument at row \<open>i\<close>, as the replay loop reads it: BUY when
  its \<open>Position\<close> entry equals 2, SELL when it equals -2. \<open>step_events\<close> lists the
  events of a row in the dictionary's order, and \<open>trade_key\<close> is the date, ticker and
  action of a trade record. \<open>example_sell_flat\<close> is one instrument with a SELL event on
  its second day, when no share is held.
\<close>

definition event_at :: "frame \<Rightarrow> nat \<Rightarrow> action option" where
  "event_at data i =
     (case columns data ''Position'' of
        None \<Rightarrow> None
      | Some position \<Rightarrow>
          if i < length position then
            (if fl_eq (position ! i) (Fin 2) then Some BUY
             else if fl_eq (position ! i) (Fin (- 2)) then Some SELL
             else None)
          else None)"

definition step_events :: "(string \<times> frame) list \<Rightarrow> int \<Rightarrow> nat \<Rightarrow> (int \<times> string \<times> action) list" where
  "step_events data_dict date i =
     concat (map (\<lambda>(ticker, data).
                    case event_at data i of None \<Rightarrow> [] | Some a \<Rightarrow> [(date, ticker, a)])
               data_dict)"

definition trade_key :: "trade \<Rightarrow> int \<times> string \<times> action" where
  "trade_key tr = (t_date tr, t_ticker tr, t_action tr)"

definition example_sell_flat :: "(string \<times> frame) list" where
  "example_sell_flat =
     [(''A'', \<lparr> index = [0, 1],
                columns = [''Close'' \<mapsto> [Fin 10, Fin 10],
                           ''Position'' \<mapsto> [NaN, Fin (- 2)]] \<rparr>)]"

text \<open>
  The weights of a replay are in order when every instrument has a finite non-negative
  weight and the weights of the instruments sum to 1; \<open>fin_val\<close> reads a finite value
  as a real. \<open>trades_on\<close> selects the records of one date, and \<open>spent\<close> is the total
  value of the BUY records of a trade log.
\<close>

fun fl_nonneg :: "fl \<Rightarrow> bool" where
  "fl_nonneg (Fin a) = (0 \<le> a)"
| "fl_nonneg x = False"

fun fin_val :: "fl \<Rightarrow> real" where
  "fin_val (Fin a) = a"
| "fin_val x = 0"

definition weight_val :: "(string \<rightharpoonup> fl) \<Rightarrow> string \<Rightarrow> real" where
  "weight_val ws ticker = (case ws ticker of None \<Rightarrow> 0 | Some w \<Rightarrow> fin_val w)"

definition weights_ok :: "(string \<rightharpoonup> fl) \<Rightarrow> (string \<times> frame) list \<Rightarrow> bool" where
  "weights_ok ws data_dict \<longleftrightarrow>
     list_all (\<lambda>(ticker, data). case ws ticker of None \<Rightarrow> False | Some w \<Rightarrow> fl_nonneg w)
       data_dict
     \<and> sum_list (map (\<lambda>(ticker, data). weight_val ws ticker) data_dict) = 1"

definition trades_on :: "int \<Rightarrow> trade list \<Rightarrow> trade list" where
  "trades_on date trs = filter (\<lambda>t. t_date t = date) trs"

definition spent :: "trade list \<Rightarrow> real" where
  "spent trs = sum_list (map (\<lambda>t. fin_val (t_value t)) (filter (\<lambda>t. t_action t = BUY) trs))"

text \<open>
  The running cash of a step. \<open>apply_trade\<close> is what one trade does to the variable
  \<open>current_cash\<close>: a BUY subtracts the value of its record, a SELL adds it.
  \<open>running_cash c trs\<close> is the cash \<open>c\<close> after the trades \<open>trs\<close>, applied one after
  another with the floating-point operations of the loop. A BUY record is allocated from
  the cash \<open>c\<close> when its shares are \<open>c * weight / price\<close> and its value is
  \<open>shares * price\<close>, computed in this order.
\<close>

definition apply_trade :: "fl \<Rightarrow> trade \<Rightarrow> fl" where
  "apply_trade cash tr =
     (case t_action tr of
        BUY \<Rightarrow> fl_sub cash (t_value tr)
      | SELL \<Rightarrow> fl_add cash (t_value tr))"

definition running_cash :: "fl \<Rightarrow> trade list \<Rightarrow> fl" where
  "running_cash cash trs = foldl apply_trade cash trs"

definition allocated_from :: "(string \<rightharpoonup> fl) \<Rightarrow> fl \<Rightarrow> trade \<Rightarrow> bool" where
  "allocated_from ws cash tr \<longleftrightarrow>
     (case ws (t_ticker tr) of
        None \<Rightarrow> False
      | Some w \<Rightarrow> t_shares tr = fl_div (fl_mul cash w) (t_price tr)
                \<and> t_value tr = fl_mul (t_shares tr) (t_price tr))"

text \<open>
  The invariant of the inner loop, relative to the cash \<open>c0\<close> and the log \<open>log0\<close> it
  started from: the records appended carry the date of the step, \<open>current_cash\<close> is the
  running cash after them, and every BUY among them is allocated from the running cash
  after the records before it. The invariant of the outer loop before row \<open>j\<close> says the
  same of the rows written so far.
\<close>

definition inner_inv :: "(string \<rightharpoonup> fl) \<Rightarrow> fl \<Rightarrow> trade list \<Rightarrow> int \<Rightarrow> step_state \<Rightarrow> bool" where
  "inner_inv ws c0 log0 date st \<longleftrightarrow>
     (\<exists>new. trades st = log0 @ new \<and> (\<forall>tr\<in>set new. t_date tr = date)
        \<and> current_cash st = running_cash c0 new
        \<and> (\<forall>k < length new. t_action (new ! k) = BUY \<longrightarrow>
              allocated_from ws (running_cash c0 (take k new)) (new ! k)))"

definition run_inv :: "(string \<rightharpoonup> fl) \<Rightarrow> nat \<Rightarrow> bt_state \<Rightarrow> bool" where
  "run_inv ws j s \<longleftrightarrow>
     length (Cash (ledger s)) = length (p_index (ledger s))
     \<and> (\<forall>tr\<in>set (trade_log s). \<exists>m. 0 < m \<and> m < j \<and> t_date tr = p_index (ledger s) ! m)
     \<and> (\<forall>m. 0 < m \<and> m < j \<longrightarrow>
          Cash (ledger s) ! m
            = running_cash (Cash (ledger s) ! (m - 1))
                (trades_on (p_index (ledger s) ! m) (trade_log s)))
     \<and> (\<forall>k < length (trade_log s). t_action (trade_log s ! k) = BUY \<longrightarrow>
          (\<exists>m. 0 < m \<and> m < j \<and> t_date (trade_log s ! k) = p_index (ledger s) ! m
             \<and> allocated_from ws
                 (running_cash (Cash (ledger s) ! (m - 1))
                    (trades_on (t_date (trade_log s ! k)) (take k (trade_log s))))
                 (trade_log s ! k)))"

text \<open>
  Two instruments over three days. \<open>A\<close> is bought on the second day and sold on the
  third at three times the price; \<open>B\<close> is bought on the third day. The two examples are
  the same dictionary in its two iteration orders.
\<close>

definition frame_A :: frame where
  "frame_A = \<lparr> index = [0, 1, 2],
               columns = [''Close'' \<mapsto> [Fin 10, Fin 10, Fin 30],
                          ''Position'' \<mapsto> [NaN, Fin 2, Fin (- 2)]] \<rparr>"

definition frame_B :: frame where
  "frame_B = \<lparr> index = [0, 1, 2],
               columns = [''Close'' \<mapsto> [Fin 10, Fin 10, Fin 10],
                          ''Position'' \<mapsto> [NaN, Fin 0, Fin 2]] \<rparr>"

definition example_sell_then_buy :: "(string \<times> frame) list" where
  "example_sell_then_buy = [(''A'', frame_A), (''B'', frame_B)]"

definition example_buy_then_sell :: "(string \<times> frame) list" where
  "example_buy_then_sell = [(''B'', frame_B), (''A'', frame_A)]"

section \<open>Lemmas about the error monad and the replay loop\<close>


lemma and_then_Inr_iff: "and_then m f = Inr r \<longleftrightarrow> (\<exists>v. m = Inr v \<and> f v = Inr r)"
  by (cases m) (simp_all add: and_then_def)

lemma foldE_invariant:
  assumes "foldE f xs s = Inr s'" and "I s"
    and "\<And>x t t'. x \<in> set xs \<Longrightarrow> I t \<Longrightarrow> f x t = Inr t' \<Longrightarrow> I t'"
  shows "I s'"
  using assms
proof (induction xs arbitrary: s)
  case Nil
  then show ?case by simp
next
  case (Cons x xs)
  from Cons.prems(1) obtain t where t: "f x s = Inr t" and rest: "foldE f xs t = Inr s'"
    by (auto simp: and_then_Inr_iff)
  have "I t" using Cons.prems(3) [of x s t] Cons.prems(2) t by simp
  show ?case
  proof (rule Cons.IH [OF rest \<open>I t\<close>])
    fix y u u' assume "y \<in> set xs" "I u" "f y u = Inr u'"
    then show "I u'" using Cons.prems(3) [of y u u'] by simp
  qed
qed

lemma length_loc_set: "length (loc_set idx l v xs) = min (length idx) (length xs)"
  by (simp add: loc_set_def)

lemma loc_set_nth:
  "i < length idx \<Longrightarrow> i < length xs \<Longrightarrow>
     loc_set idx l v xs ! i = (if idx ! i = l then v else xs ! i)"
  by (simp add: loc_set_def)

lemma fl_add_zero_right: "fl_add x (Fin 0) = x"
  by (cases x) simp_all

lemma ledger_ok_initial: "ledger_ok (initial_portfolio idx c)"
  by (auto simp: ledger_ok_def initial_portfolio_def fl_add_zero_right intro!: nth_equalityI)

lemma ledger_ok_loc_set:
  assumes "ledger_ok p"
  shows "ledger_ok (p\<lparr> Holdings := loc_set (p_index p) l h (Holdings p),
                         Cash := loc_set (p_index p) l c (Cash p),
                         Total := loc_set (p_index p) l (fl_add c h) (Total p) \<rparr>)"
  using assms
  by (auto simp: ledger_ok_def length_loc_set loc_set_nth intro!: nth_equalityI)

lemma time_step_cases:
  assumes "time_step ws dd i s = Inr s'"
  obtains cash0 st where
    "iloc (Cash (ledger s)) (i - 1) = Inr cash0"
    "foldE (ticker_step ws (p_index (ledger s) ! i) i) dd
       \<lparr> shares = held s, holdings_value = Fin 0, current_cash = cash0,
         trades = trade_log s \<rparr> = Inr st"
    "ledger s' = (ledger s)\<lparr>
        Holdings := loc_set (p_index (ledger s)) (p_index (ledger s) ! i) (holdings_value st)
                      (Holdings (ledger s)),
        Cash := loc_set (p_index (ledger s)) (p_index (ledger s) ! i) (current_cash st)
                  (Cash (ledger s)),
        Total := loc_set (p_index (ledger s)) (p_index (ledger s) ! i)
                   (fl_add (current_cash st) (holdings_value st)) (Total (ledger s)) \<rparr>"
    "held s' = shares st" "trade_log s' = trades st"
proof -
  from assms obtain cash0 where c: "iloc (Cash (ledger s)) (i - 1) = Inr cash0"
    unfolding time_step_def by (auto simp: and_then_Inr_iff)
  with assms obtain st where st: "foldE (ticker_step ws (p_index (ledger s) ! i) i) dd
       \<lparr> shares = held s, holdings_value = Fin 0, current_cash = cash0,
         trades = trade_log s \<rparr> = Inr st"
    unfolding time_step_def by (auto simp: and_then_Inr_iff)
  from assms c st have "s' = \<lparr> ledger = (ledger s)\<lparr>
        Holdings := loc_set (p_index (ledger s)) (p_index (ledger s) ! i) (holdings_value st)
                      (Holdings (ledger s)),
        Cash := loc_set (p_index (ledger s)) (p_index (ledger s) ! i) (current_cash st)
                  (Cash (ledger s)),
        Total := loc_set (p_index (ledger s)) (p_index (ledger s) ! i)
                   (fl_add (current_cash st) (holdings_value st)) (Total (ledger s)) \<rparr>,
      held = shares st, trade_log = trades st \<rparr>"
    unfolding time_step_def by (simp add: and_then_def Let_def)
  then show thesis using that [OF c st] by simp
qed

lemma time_step_ledger_ok:
  assumes "time_step ws dd i s = Inr s'" "ledger_ok (ledger s)"
  shows "ledger_ok (ledger s')"
  using assms(1)
proof (rule time_step_cases)
  fix cash0 and st :: step_state
  assume "ledger s' = (ledger s)\<lparr>
        Holdings := loc_set (p_index (ledger s)) (p_index (ledger s) ! i) (holdings_value st)
                      (Holdings (ledger s)),
        Cash := loc_set (p_index (ledger s)) (p_index (ledger s) ! i) (current_cash st)
                  (Cash (ledger s)),
        Total := loc_set (p_index (ledger s)) (p_index (ledger s) ! i)
                   (fl_add (current_cash st) (holdings_value st)) (Total (ledger s)) \<rparr>"
  then show ?thesis using ledger_ok_loc_set [OF assms(2)] by simp
qed


lemma time_step_p_index:
  assumes "time_step ws dd i s = Inr s'"
  shows "p_index (ledger s') = p_index (ledger s)"
  using assms by (rule time_step_cases) simp

lemma time_step_row0:
  assumes step: "time_step ws dd i s = Inr s'"
    and ok: "ledger_ok (ledger s)" and d: "distinct (p_index (ledger s))"
    and i: "0 < i" "i < length (p_index (ledger s))"
    and r: "row0_is c (ledger s)"
  shows "row0_is c (ledger s')"
  using step
proof (rule time_step_cases)
  fix cash0 and st :: step_state
  assume l: "ledger s' = (ledger s)\<lparr>
        Holdings := loc_set (p_index (ledger s)) (p_index (ledger s) ! i) (holdings_value st)
                      (Holdings (ledger s)),
        Cash := loc_set (p_index (ledger s)) (p_index (ledger s) ! i) (current_cash st)
                  (Cash (ledger s)),
        Total := loc_set (p_index (ledger s)) (p_index (ledger s) ! i)
                   (fl_add (current_cash st) (holdings_value st)) (Total (ledger s)) \<rparr>"
  have ne: "p_index (ledger s) ! 0 \<noteq> p_index (ledger s) ! i"
  proof -
    have "0 < length (p_index (ledger s))" using i by (cases "p_index (ledger s)") auto
    then show ?thesis using d i by (simp add: nth_eq_iff_index_eq)
  qed
  have lens: "0 < length (p_index (ledger s))"
    "length (Cash (ledger s)) = length (p_index (ledger s))"
    "length (Holdings (ledger s)) = length (p_index (ledger s))"
    "length (Total (ledger s)) = length (p_index (ledger s))"
    using ok i unfolding ledger_ok_def by (cases "p_index (ledger s)"; simp)+
  show ?thesis
    using r ne lens unfolding l row0_is_def
    by (simp add: loc_set_nth)
qed

lemma backtester_run_cases:
  assumes "backtester_run data_dict initial_cash weights = Inr s"
  obtains ticker0 data0 rest where
    "data_dict = (ticker0, data0) # rest"
    "foldE (time_step (case weights of None \<Rightarrow> default_weights data_dict | Some w \<Rightarrow> w)
              data_dict)
       [1 ..< length (index data0)]
       \<lparr> ledger = initial_portfolio (index data0) initial_cash,
         held = map_of (map (\<lambda>(ticker, data). (ticker, Fin 0)) data_dict),
         trade_log = [] \<rparr> = Inr s"
proof (cases data_dict)
  case Nil
  with assms show ?thesis by (simp add: backtester_run_def)
next
  case (Cons td rest)
  obtain ticker0 data0 where td: "td = (ticker0, data0)" by (cases td)
  have len: "length (p_index (initial_portfolio (index data0) initial_cash)) = length (index data0)"
    by (simp add: initial_portfolio_def)
  have "foldE (time_step (case weights of None \<Rightarrow> default_weights data_dict | Some w \<Rightarrow> w)
              data_dict)
       [1 ..< length (index data0)]
       \<lparr> ledger = initial_portfolio (index data0) initial_cash,
         held = map_of (map (\<lambda>(ticker, data). (ticker, Fin 0)) data_dict),
         trade_log = [] \<rparr> = Inr s"
    using assms
    by (simp only: backtester_run_def Cons td list.case prod.case Let_def len)
  then show ?thesis using that Cons td by simp
qed

lemma backtester_run_invariant:
  assumes run: "backtester_run data_dict initial_cash weights = Inr s"
  shows "ledger_ok (ledger s) \<and>
         (distinct (p_index (ledger s)) \<longrightarrow> p_index (ledger s) \<noteq> [] \<longrightarrow>
            row0_is initial_cash (ledger s))"
  using run
proof (rule backtester_run_cases)
  fix ticker0 :: string and data0 :: frame and rest :: "(string \<times> frame) list"
  let ?ws = "case weights of None \<Rightarrow> default_weights data_dict | Some w \<Rightarrow> w"
  assume fold: "foldE (time_step ?ws data_dict) [1 ..< length (index data0)]
             \<lparr> ledger = initial_portfolio (index data0) initial_cash,
               held = map_of (map (\<lambda>(ticker, data). (ticker, Fin 0)) data_dict),
               trade_log = [] \<rparr> = Inr s"
  define I where "I = (\<lambda>t :: bt_state. ledger_ok (ledger t) \<and> p_index (ledger t) = index data0 \<and>
     (distinct (index data0) \<longrightarrow> index data0 \<noteq> [] \<longrightarrow> row0_is initial_cash (ledger t)))"
  have "I s"
  proof (rule foldE_invariant [OF fold])
    show "I \<lparr> ledger = initial_portfolio (index data0) initial_cash,
               held = map_of (map (\<lambda>(ticker, data). (ticker, Fin 0)) data_dict),
               trade_log = [] \<rparr>"
      unfolding I_def
      by (auto simp: ledger_ok_initial) (auto simp: initial_portfolio_def row0_is_def)
  next
    fix i t t'
    assume i: "i \<in> set [1 ..< length (index data0)]" and t: "I t"
      and step: "time_step ?ws data_dict i t = Inr t'"
    show "I t'"
      using t i time_step_ledger_ok [OF step] time_step_p_index [OF step]
        time_step_row0 [OF step, of initial_cash]
      unfolding I_def by auto
  qed
  then show ?thesis unfolding I_def by auto
qed

lemma fl_eq_refl: "\<not> is_nan x \<Longrightarrow> fl_eq x x"
  by (cases x) simp_all

lemmas bt_eval =
  backtester_run_def initial_portfolio_def default_weights_def
  time_step_def ticker_step_def and_then_def col_def iloc_def dict_get_def loc_set_def
  fl_sub_def Let_def upt_rec


section \<open>Lemmas about the strategies and the metrics\<close>

lemma length_scatter: "length (scatter m vs xs) = length xs"
  by (induction m vs xs rule: scatter.induct) simp_all

lemma set_scatter: "set (scatter m vs xs) \<subseteq> set vs \<union> set xs"
  by (induction m vs xs rule: scatter.induct) auto

lemma regime_scatter:
  assumes "list_all is_regime vs" "list_all is_regime xs"
  shows "list_all is_regime (scatter m vs xs)"
  using assms set_scatter [of m vs xs] by (auto simp: list_all_iff)

lemma regime_zero: "list_all is_regime (replicate n (Fin 0))"
  by (simp add: list_all_iff is_regime_def)

lemma position_changes_signal:
  assumes "length signal = length (index data)" "list_all is_regime signal"
  shows "\<exists>data'. position_changes (set_col ''Signal'' signal data) = Inr data'
           \<and> signal_ok data data'"
  using assms
  by (simp add: position_changes_def col_def set_col_def and_then_def signal_ok_def)

lemma position_changes_signal_ok:
  assumes "position_changes (set_col ''Signal'' signal data1) = Inr data'"
    "length signal = length (index data1)" "list_all is_regime signal"
    "index data1 = index data0"
  shows "signal_ok data0 data'"
  using assms
  by (auto simp: position_changes_def col_def set_col_def and_then_def signal_ok_def)

lemma index_set_col: "index (set_col name series data) = index data"
  by (simp add: set_col_def)

lemma regime_signals:
  "list_all is_regime (map (\<lambda>(s, l). if fl_gt s l then Fin 1 else Fin (- 1)) xs)"
  "list_all is_regime (map (\<lambda>r. if fl_lt r oversold then Fin 1
                                    else if fl_gt r overbought then Fin (- 1) else Fin 0) ys)"
  "list_all is_regime (map (\<lambda>(m, s, h). if fl_gt m s \<and> fl_gt h (Fin 0) then Fin 1
                                    else if fl_lt m s \<and> fl_lt h (Fin 0) then Fin (- 1)
                                    else Fin 0) zs)"
  "list_all is_regime (map (\<lambda>(c, l, u). if fl_le c l then Fin 1
                                    else if fl_ge c u then Fin (- 1) else Fin 0) zs)"
  by (auto simp: list_all_iff is_regime_def split: if_splits)

lemma signals_body_signal_ok:
  assumes "signals_body strat data = Inr data'"
  shows "signal_ok data data'"
proof (cases strat)
  case (SMACrossoverStrategy short_window long_window)
  show ?thesis
    using assms unfolding SMACrossoverStrategy signals_body_def
    by (auto simp: and_then_Inr_iff Let_def length_scatter regime_zero index_set_col
          regime_signals regime_scatter
        elim!: position_changes_signal_ok split: if_splits)
next
  case (RSIStrategy window overbought oversold)
  show ?thesis
    using assms unfolding RSIStrategy signals_body_def
    by (auto simp: and_then_Inr_iff Let_def length_scatter regime_zero index_set_col
          regime_signals regime_scatter
        elim!: position_changes_signal_ok split: if_splits)
next
  case (MACDStrategy fast_period slow_period signal_period)
  show ?thesis
    using assms unfolding MACDStrategy signals_body_def
    by (auto simp: and_then_Inr_iff Let_def length_scatter regime_zero index_set_col
          regime_signals regime_scatter
        elim!: position_changes_signal_ok split: if_splits)
next
  case (BollingerBandsStrategy window num_std)
  show ?thesis
    using assms unfolding BollingerBandsStrategy signals_body_def
    by (auto simp: and_then_Inr_iff Let_def length_scatter regime_zero index_set_col
          regime_signals regime_scatter
        elim!: position_changes_signal_ok split: if_splits)
qed


lemmas sig_eval = generate_signals_def df_copy_def
  signals_body_def and_then_def col_def rolling_mean_def rolling_std_def rolling_def
  window_at_def series_mean_def series_std_def fl_sum_def set_col_def valid_mask_def select_def
  position_changes_def replace_eq_def diff_def rsi_values_def rsi_gain_def rsi_loss_def rsi_of_def
  fl_sub_def fl_gt_def fl_le_def fl_ge_def Let_def upt_rec ewm_mean_def price_frame_def

lemma generate_signals_cases:
  assumes "generate_signals strat r h = (res, h')"
  obtains e where "res = Inl e" "h' = h @ [h ! r]" "signals_body strat (h ! r) = Inl e"
  | data' where "res = Inr (length h)" "h' = h @ [data']" "signals_body strat (h ! r) = Inr data'"
  using assms
  by (auto simp: generate_signals_def df_copy_def split: sum.splits)

lemma generate_signals_signal_ok:
  assumes "generate_signals strat r h = (Inr d, h')"
  shows "signal_ok (h ! r) (h' ! d)"
  using assms
proof (rule generate_signals_cases)
  fix e :: py_error assume "Inr d = Inl e"
  then show ?thesis by simp
next
  fix data' assume "Inr d = Inr (length h)" "h' = h @ [data']"
    "signals_body strat (h ! r) = Inr data'"
  then show ?thesis using signals_body_signal_ok [of strat "h ! r" data'] by simp
qed

lemma diff_nth:
  "0 < t \<Longrightarrow> t < length xs \<Longrightarrow> diff xs ! t = fl_sub (xs ! t) (xs ! (t - 1))"
  by (cases xs; cases t) (simp_all add: diff_def)

lemma diff_first: "xs \<noteq> [] \<Longrightarrow> diff xs ! 0 = NaN"
  by (cases xs) (simp_all add: diff_def)

lemma length_diff: "length (diff xs) = length xs"
  by (cases xs) (simp_all add: diff_def)

lemma replace_eq_nth:
  "i < length xs \<Longrightarrow> replace_eq old new xs ! i = (if fl_eq (xs ! i) old then new else xs ! i)"
  by (simp add: replace_eq_def)

lemma length_replace_eq: "length (replace_eq old new xs) = length xs"
  by (simp add: replace_eq_def)

lemma length_rolling: "rolling agg w xs = Inr ys \<Longrightarrow> length ys = length xs"
  by (auto simp: rolling_def split: if_splits)

lemma length_rsi_gain: "rsi_gain w close = Inr gain \<Longrightarrow> length gain = length close"
  by (auto simp: rsi_gain_def rolling_mean_def length_diff dest!: length_rolling)

lemma length_rsi_loss: "rsi_loss w close = Inr loss \<Longrightarrow> length loss = length close"
  by (auto simp: rsi_loss_def rolling_mean_def length_diff dest!: length_rolling)

lemma signals_body_rsi:
  assumes "signals_body (RSIStrategy w ob os) data = Inr data'"
  shows "\<exists>close rsi. columns data ''Close'' = Some close \<and> rsi_values w close = Inr rsi
           \<and> columns data' ''RSI'' = Some rsi"
  using assms unfolding signals_body_def
  by (auto simp: and_then_Inr_iff Let_def col_def position_changes_def set_col_def
           split: option.splits if_splits)

lemma rsi_of_zero_loss:
  "0 < g \<Longrightarrow> rsi_of (Fin g) (Fin 0) = Fin 100"
  "rsi_of PInf (Fin 0) = Fin 100"
  "rsi_of (Fin 0) (Fin 0) = NaN"
  by (simp_all add: rsi_of_def fl_sub_def)

lemmas metrics_eval = calculate_metrics_def dropna_def series_std_def series_mean_def fl_sum_def
  fl_sub_def cummax_def series_max_def fl_max_def Let_def

lemma three_rows:
  "calculate_metrics \<lparr> p_index = [0, 1, 2], Holdings = [Fin 0, Fin 0, Fin 0],
                        Cash = [Fin 100, Fin 100, Fin 100], Total = [Fin 100, Fin 100, Fin 100] \<rparr>
     = \<lparr> sharpe_ratio = Fin 0, max_drawdown = Fin 0 \<rparr>"
  by (simp add: metrics_eval)

lemma calculate_metrics_guard:
  "dropna (pct_change (Total p)) = [] \<or> fl_eq (series_std (dropna (pct_change (Total p)))) (Fin 0)
     \<Longrightarrow> calculate_metrics p = \<lparr> sharpe_ratio = Fin 0, max_drawdown = Fin 0 \<rparr>"
  by (auto simp: calculate_metrics_def Let_def)

lemma calculate_metrics_divisor:
  "calculate_metrics p \<noteq> \<lparr> sharpe_ratio = Fin 0, max_drawdown = Fin 0 \<rparr>
     \<Longrightarrow> series_std (dropna (pct_change (Total p))) \<noteq> Fin 0
       \<and> sharpe_ratio (calculate_metrics p)
           = fl_mul (fl_div (series_mean (dropna (pct_change (Total p))))
                            (series_std (dropna (pct_change (Total p))))) (Fin (sqrt 252))"
  by (auto simp: calculate_metrics_def Let_def split: if_splits)

section \<open>Lemmas about the trade log\<close>

lemma ticker_step_trades:
  assumes "ticker_step ws date i (ticker, data) st = Inr st'"
  shows "map trade_key (trades st')
           = map trade_key (trades st)
             @ (case event_at data i of None \<Rightarrow> [] | Some a \<Rightarrow> [(date, ticker, a)])"
  using assms unfolding ticker_step_def
  by (auto simp: and_then_Inr_iff Let_def col_def iloc_def event_at_def trade_key_def
           split: option.splits if_splits)

lemma inner_loop_trades:
  assumes "foldE (ticker_step ws date i) data_dict st = Inr st'"
  shows "map trade_key (trades st') = map trade_key (trades st) @ step_events data_dict date i"
  using assms
proof (induction data_dict arbitrary: st)
  case Nil
  then show ?case by (simp add: step_events_def)
next
  case (Cons td rest)
  obtain ticker data where td: "td = (ticker, data)" by (cases td)
  from Cons.prems obtain st1 where one: "ticker_step ws date i (ticker, data) st = Inr st1"
    and more: "foldE (ticker_step ws date i) rest st1 = Inr st'"
    by (auto simp: and_then_Inr_iff td)
  show ?case
    using Cons.IH [OF more] ticker_step_trades [OF one]
    by (simp add: step_events_def td)
qed

lemma time_step_trades:
  assumes "time_step ws data_dict i s = Inr s'"
  shows "map trade_key (trade_log s')
           = map trade_key (trade_log s) @ step_events data_dict (p_index (ledger s) ! i) i"
  using assms
proof (rule time_step_cases)
  fix cash0 and st :: step_state
  assume "foldE (ticker_step ws (p_index (ledger s) ! i) i) data_dict
       \<lparr> shares = held s, holdings_value = Fin 0, current_cash = cash0,
         trades = trade_log s \<rparr> = Inr st" and "trade_log s' = trades st"
  then show ?thesis using inner_loop_trades by fastforce
qed

lemma outer_loop_trades:
  assumes "foldE (time_step ws data_dict) steps s = Inr s'"
  shows "p_index (ledger s') = p_index (ledger s) \<and>
         map trade_key (trade_log s')
           = map trade_key (trade_log s)
             @ concat (map (\<lambda>i. step_events data_dict (p_index (ledger s) ! i) i) steps)"
  using assms
proof (induction steps arbitrary: s)
  case Nil
  then show ?case by simp
next
  case (Cons i rest)
  from Cons.prems obtain s1 where one: "time_step ws data_dict i s = Inr s1"
    and more: "foldE (time_step ws data_dict) rest s1 = Inr s'"
    by (auto simp: and_then_Inr_iff)
  show ?case
    using Cons.IH [OF more] time_step_trades [OF one] time_step_p_index [OF one]
    by simp
qed

section \<open>Lemmas about the running cash of the replay loop\<close>

lemma ticker_step_cases:
  assumes "ticker_step ws date i (ticker, data) st = Inr st'"
  obtains (buy) position close w where
      "columns data ''Position'' = Some position" "i < length position"
      "fl_eq (position ! i) (Fin 2)"
      "ws ticker = Some w" "columns data ''Close'' = Some close" "i < length close"
      "st' = st\<lparr> shares := (shares st)(ticker \<mapsto> fl_div (fl_mul (current_cash st) w) (close ! i)),
                 holdings_value := fl_add (holdings_value st)
                     (fl_mul (fl_div (fl_mul (current_cash st) w) (close ! i)) (close ! i)),
                 current_cash := fl_sub (current_cash st)
                     (fl_mul (fl_div (fl_mul (current_cash st) w) (close ! i)) (close ! i)),
                 trades := trades st @
                   [\<lparr> t_date = date, t_ticker = ticker, t_action = BUY,
                      t_shares = fl_div (fl_mul (current_cash st) w) (close ! i),
                      t_price = close ! i,
                      t_value = fl_mul (fl_div (fl_mul (current_cash st) w) (close ! i)) (close ! i) \<rparr>] \<rparr>"
  | (sell) position close sh where
      "columns data ''Position'' = Some position" "i < length position"
      "\<not> fl_eq (position ! i) (Fin 2)" "fl_eq (position ! i) (Fin (- 2))"
      "shares st ticker = Some sh" "columns data ''Close'' = Some close" "i < length close"
      "st' = st\<lparr> shares := (shares st)(ticker \<mapsto> Fin 0),
                 current_cash := fl_add (current_cash st) (fl_mul sh (close ! i)),
                 trades := trades st @
                   [\<lparr> t_date = date, t_ticker = ticker, t_action = SELL,
                      t_shares = sh, t_price = close ! i, t_value = fl_mul sh (close ! i) \<rparr>] \<rparr>"
  | (hold) position close sh where
      "columns data ''Position'' = Some position" "i < length position"
      "\<not> fl_eq (position ! i) (Fin 2)" "\<not> fl_eq (position ! i) (Fin (- 2))"
      "shares st ticker = Some sh" "columns data ''Close'' = Some close" "i < length close"
      "st' = st\<lparr> holdings_value := fl_add (holdings_value st) (fl_mul sh (close ! i)) \<rparr>"
  using assms unfolding ticker_step_def
  by (auto simp: and_then_Inr_iff Let_def col_def iloc_def dict_get_def
           split: option.splits if_splits)

lemma foldE_upt_invariant:
  assumes "foldE f [k ..< n] s = Inr s'" and "R k s" and "k \<le> n"
    and "\<And>j t t'. k \<le> j \<Longrightarrow> j < n \<Longrightarrow> R j t \<Longrightarrow> f j t = Inr t' \<Longrightarrow> R (Suc j) t'"
  shows "R n s'"
  using assms
proof (induction "n - k" arbitrary: k s)
  case 0
  then show ?case by simp
next
  case (Suc d)
  then have lt: "k < n" by simp
  with Suc.prems(1) obtain t where one: "f k s = Inr t"
    and more: "foldE f [Suc k ..< n] t = Inr s'"
    by (auto simp: upt_conv_Cons and_then_Inr_iff)
  have "R (Suc k) t" using Suc.prems(4) [of k s t] lt Suc.prems(2) one by simp
  moreover have "d = n - Suc k" using Suc.hyps(2) by simp
  ultimately show ?case
    using Suc.hyps(1) [of "Suc k" t] more lt Suc.prems(4) by simp
qed

lemma loc_set_distinct:
  assumes "distinct idx" "j < length idx" "length xs = length idx"
  shows "loc_set idx (idx ! j) v xs = xs[j := v]"
  using assms
  by (auto simp: loc_set_def nth_eq_iff_index_eq intro!: nth_equalityI)

lemma trades_on_append: "trades_on d (xs @ ys) = trades_on d xs @ trades_on d ys"
  by (simp add: trades_on_def)

lemma trades_on_all: "\<forall>tr\<in>set xs. t_date tr = d \<Longrightarrow> trades_on d xs = xs"
  by (simp add: trades_on_def)

lemma trades_on_none: "\<forall>tr\<in>set xs. t_date tr \<noteq> d \<Longrightarrow> trades_on d xs = []"
  by (simp add: trades_on_def)

lemmas example_eval = example_sell_then_buy_def example_buy_then_sell_def frame_A_def frame_B_def

lemma example_weights_ok:
  "weights_ok (default_weights example_sell_then_buy) example_sell_then_buy"
  by (simp add: weights_ok_def default_weights_def weight_val_def example_eval)

lemma running_cash_snoc: "running_cash c (trs @ [tr]) = apply_trade (running_cash c trs) tr"
  by (simp add: running_cash_def)

lemma inner_inv_start:
  "inner_inv ws c0 log0 date
     \<lparr> shares = sh, holdings_value = hv, current_cash = c0, trades = log0 \<rparr>"
  by (simp add: inner_inv_def running_cash_def)

lemma inner_inv_snoc:
  assumes new: "\<forall>tr\<in>set new. t_date tr = date"
    and buys: "\<forall>k < length new. t_action (new ! k) = BUY \<longrightarrow>
                 allocated_from ws (running_cash c0 (take k new)) (new ! k)"
    and date: "t_date tr = date"
    and tr: "t_action tr = BUY \<longrightarrow> allocated_from ws (running_cash c0 new) tr"
    and trades: "trades st' = log0 @ new @ [tr]"
    and cash: "current_cash st' = apply_trade (running_cash c0 new) tr"
  shows "inner_inv ws c0 log0 date st'"
proof -
  have "\<forall>k < length (new @ [tr]). t_action ((new @ [tr]) ! k) = BUY \<longrightarrow>
          allocated_from ws (running_cash c0 (take k (new @ [tr]))) ((new @ [tr]) ! k)"
  proof (intro allI impI)
    fix k assume k: "k < length (new @ [tr])" and b: "t_action ((new @ [tr]) ! k) = BUY"
    show "allocated_from ws (running_cash c0 (take k (new @ [tr]))) ((new @ [tr]) ! k)"
    proof (cases "k < length new")
      case True
      then show ?thesis using buys b by (simp add: nth_append)
    next
      case False
      then have "k = length new" using k by simp
      then show ?thesis using tr b by simp
    qed
  qed
  moreover have "\<forall>x\<in>set (new @ [tr]). t_date x = date" using new date by simp
  moreover have "current_cash st' = running_cash c0 (new @ [tr])"
    using cash by (simp add: running_cash_snoc)
  ultimately show ?thesis
    unfolding inner_inv_def using trades by (intro exI [of _ "new @ [tr]"]) simp
qed

lemma ticker_step_inner_inv:
  assumes inv: "inner_inv ws c0 log0 date st"
    and step: "ticker_step ws date i (ticker, data) st = Inr st'"
  shows "inner_inv ws c0 log0 date st'"
proof -
  from inv obtain new where new: "trades st = log0 @ new" "\<forall>tr\<in>set new. t_date tr = date"
    and cash: "current_cash st = running_cash c0 new"
    and buys: "\<forall>k < length new. t_action (new ! k) = BUY \<longrightarrow>
                 allocated_from ws (running_cash c0 (take k new)) (new ! k)"
    unfolding inner_inv_def by blast
  from step show ?thesis
  proof (cases rule: ticker_step_cases)
    case (buy position close w)
    let ?sh = "fl_div (fl_mul (current_cash st) w) (close ! i)"
    let ?tr = "\<lparr> t_date = date, t_ticker = ticker, t_action = BUY,
                 t_shares = ?sh, t_price = close ! i, t_value = fl_mul ?sh (close ! i) \<rparr>"
    show ?thesis
    proof (rule inner_inv_snoc [OF new(2) buys, of ?tr])
      show "t_date ?tr = date" by simp
      show "t_action ?tr = BUY \<longrightarrow> allocated_from ws (running_cash c0 new) ?tr"
        using buy(4) cash by (simp add: allocated_from_def)
      show "trades st' = log0 @ new @ [?tr]" unfolding buy(7) using new(1) by simp
      show "current_cash st' = apply_trade (running_cash c0 new) ?tr"
        unfolding buy(7) using cash by (simp add: apply_trade_def)
    qed
  next
    case (sell position close sh)
    let ?tr = "\<lparr> t_date = date, t_ticker = ticker, t_action = SELL,
                 t_shares = sh, t_price = close ! i, t_value = fl_mul sh (close ! i) \<rparr>"
    show ?thesis
    proof (rule inner_inv_snoc [OF new(2) buys, of ?tr])
      show "t_date ?tr = date" by simp
      show "t_action ?tr = BUY \<longrightarrow> allocated_from ws (running_cash c0 new) ?tr" by simp
      show "trades st' = log0 @ new @ [?tr]" unfolding sell(8) using new(1) by simp
      show "current_cash st' = apply_trade (running_cash c0 new) ?tr"
        unfolding sell(8) using cash by (simp add: apply_trade_def)
    qed
  next
    case (hold position close sh)
    show ?thesis
      unfolding inner_inv_def hold(8) using new cash buys by auto
  qed
qed

lemma inner_loop_inner_inv:
  assumes inv: "inner_inv ws c0 log0 date st"
    and fold: "foldE (ticker_step ws date i) data_dict st = Inr st'"
  shows "inner_inv ws c0 log0 date st'"
proof (rule foldE_invariant [where I = "inner_inv ws c0 log0 date", OF fold inv])
  fix td t t'
  assume "inner_inv ws c0 log0 date t" "ticker_step ws date i td t = Inr t'"
  then show "inner_inv ws c0 log0 date t'"
    using ticker_step_inner_inv [of ws c0 log0 date t i "fst td" "snd td" t'] by simp
qed

lemma time_step_run_inv:
  assumes d: "distinct (p_index (ledger s))" and j: "0 < j" "j < length (p_index (ledger s))"
    and inv: "run_inv ws j s" and step: "time_step ws data_dict j s = Inr s'"
  shows "run_inv ws (Suc j) s' \<and> p_index (ledger s') = p_index (ledger s)"
  using step
proof (rule time_step_cases)
  fix cash0 and st :: step_state
  let ?idx = "p_index (ledger s)"
  let ?log = "trade_log s"
  let ?date = "?idx ! j"
  assume cash0: "iloc (Cash (ledger s)) (j - 1) = Inr cash0"
    and fold: "foldE (ticker_step ws ?date j) data_dict
       \<lparr> shares = held s, holdings_value = Fin 0, current_cash = cash0,
         trades = trade_log s \<rparr> = Inr st"
    and l: "ledger s' = (ledger s)\<lparr>
        Holdings := loc_set ?idx ?date (holdings_value st) (Holdings (ledger s)),
        Cash := loc_set ?idx ?date (current_cash st) (Cash (ledger s)),
        Total := loc_set ?idx ?date
                   (fl_add (current_cash st) (holdings_value st)) (Total (ledger s)) \<rparr>"
    and t: "trade_log s' = trades st"
  from inv have len: "length (Cash (ledger s)) = length ?idx"
    and dates: "\<forall>tr\<in>set ?log. \<exists>m. 0 < m \<and> m < j \<and> t_date tr = ?idx ! m"
    and rows: "\<forall>m. 0 < m \<and> m < j \<longrightarrow>
          Cash (ledger s) ! m
            = running_cash (Cash (ledger s) ! (m - 1)) (trades_on (?idx ! m) ?log)"
    and buys: "\<forall>k < length ?log. t_action (?log ! k) = BUY \<longrightarrow>
          (\<exists>m. 0 < m \<and> m < j \<and> t_date (?log ! k) = ?idx ! m
             \<and> allocated_from ws
                 (running_cash (Cash (ledger s) ! (m - 1))
                    (trades_on (t_date (?log ! k)) (take k ?log)))
                 (?log ! k))"
    unfolding run_inv_def by blast+
  from cash0 have c0: "cash0 = Cash (ledger s) ! (j - 1)"
    by (auto simp: iloc_def split: if_splits)
  from inner_loop_inner_inv [OF inner_inv_start fold]
  obtain new where log': "trades st = ?log @ new" and new: "\<forall>tr\<in>set new. t_date tr = ?date"
    and cur: "current_cash st = running_cash cash0 new"
    and nbuys: "\<forall>k < length new. t_action (new ! k) = BUY \<longrightarrow>
                 allocated_from ws (running_cash cash0 (take k new)) (new ! k)"
    unfolding inner_inv_def by blast
  have idx': "p_index (ledger s') = ?idx" using l by simp
  have cash: "Cash (ledger s') = (Cash (ledger s))[j := current_cash st]"
    using l loc_set_distinct [OF d j(2) len] by simp
  have old: "Cash (ledger s') ! m = Cash (ledger s) ! m" if "m < j" for m
    unfolding cash using that by simp
  have old_none: "trades_on ?date xs = []" if "set xs \<subseteq> set ?log" for xs
  proof (rule trades_on_none, rule ballI)
    fix tr assume "tr \<in> set xs"
    with that dates obtain m where m: "0 < m" "m < j" "t_date tr = ?idx ! m" by blast
    then show "t_date tr \<noteq> ?date" using d j by (simp add: nth_eq_iff_index_eq)
  qed
  have new_none: "trades_on (?idx ! m) new = []" if "m < j" for m
  proof (rule trades_on_none, rule ballI)
    fix tr assume "tr \<in> set new"
    with new have "t_date tr = ?date" by blast
    then show "t_date tr \<noteq> ?idx ! m" using d j that by (simp add: nth_eq_iff_index_eq)
  qed
  have len': "length (Cash (ledger s')) = length (p_index (ledger s'))"
    unfolding cash idx' using len by simp
  have dates': "\<forall>tr\<in>set (trade_log s'). \<exists>m. 0 < m \<and> m < Suc j \<and> t_date tr = ?idx ! m"
  proof
    fix tr assume "tr \<in> set (trade_log s')"
    then consider "tr \<in> set ?log" | "tr \<in> set new" unfolding t log' by auto
    then show "\<exists>m. 0 < m \<and> m < Suc j \<and> t_date tr = ?idx ! m"
    proof cases
      case 1
      with dates obtain m where "0 < m" "m < j" "t_date tr = ?idx ! m" by blast
      then show ?thesis by (intro exI [of _ m]) simp
    next
      case 2
      with new j(1) show ?thesis by (intro exI [of _ j]) simp
    qed
  qed
  have rows': "Cash (ledger s') ! m
            = running_cash (Cash (ledger s') ! (m - 1)) (trades_on (?idx ! m) (trade_log s'))"
    if m: "0 < m" "m < Suc j" for m
  proof (cases "m = j")
    case True
    have "trades_on ?date (trade_log s') = new"
      unfolding t log' trades_on_append using old_none [of ?log] trades_on_all [OF new] by simp
    moreover have "Cash (ledger s') ! j = current_cash st"
      unfolding cash using j len by simp
    moreover have "Cash (ledger s') ! (j - 1) = cash0"
      using old [of "j - 1"] j(1) c0 by simp
    ultimately show ?thesis using cur True by simp
  next
    case False
    then have lt: "m < j" using m by simp
    have "trades_on (?idx ! m) (trade_log s') = trades_on (?idx ! m) ?log"
      unfolding t log' trades_on_append using new_none [OF lt] by simp
    then show ?thesis using rows m(1) lt old [of m] old [of "m - 1"] by simp
  qed
  have buys': "\<exists>m. 0 < m \<and> m < Suc j \<and> t_date (trade_log s' ! k) = ?idx ! m
             \<and> allocated_from ws
                 (running_cash (Cash (ledger s') ! (m - 1))
                    (trades_on (t_date (trade_log s' ! k)) (take k (trade_log s'))))
                 (trade_log s' ! k)"
    if k: "k < length (trade_log s')" and b: "t_action (trade_log s' ! k) = BUY" for k
  proof (cases "k < length ?log")
    case True
    then have same: "trade_log s' ! k = ?log ! k" "take k (trade_log s') = take k ?log"
      unfolding t log' by (simp_all add: nth_append)
    from buys True b same obtain m where m: "0 < m" "m < j" "t_date (?log ! k) = ?idx ! m"
      and a: "allocated_from ws
                 (running_cash (Cash (ledger s) ! (m - 1))
                    (trades_on (t_date (?log ! k)) (take k ?log)))
                 (?log ! k)"
      by auto
    show ?thesis
      using m a old [of "m - 1"] unfolding same by (intro exI [of _ m]) simp
  next
    case False
    define k' where "k' = k - length ?log"
    have k': "k' < length new" "k = length ?log + k'"
      using k False unfolding k'_def t log' by simp_all
    have nth: "trade_log s' ! k = new ! k'" unfolding t log' k'(2) by simp
    have tk: "take k (trade_log s') = ?log @ take k' new" unfolding t log' k'(2) by simp
    have dt: "t_date (new ! k') = ?date" using new k'(1) by simp
    have "trades_on ?date (take k' new) = take k' new"
      by (rule trades_on_all) (use new in \<open>auto dest: in_set_takeD\<close>)
    then have tr: "trades_on ?date (take k (trade_log s')) = take k' new"
      unfolding tk trades_on_append using old_none [of ?log] by simp
    have "allocated_from ws (running_cash cash0 (take k' new)) (new ! k')"
      using nbuys k'(1) b nth by simp
    moreover have "Cash (ledger s') ! (j - 1) = cash0"
      using old [of "j - 1"] j(1) c0 by simp
    ultimately show ?thesis
      unfolding nth dt tr using j(1) by (intro exI [of _ j]) simp
  qed
  show ?thesis
    unfolding run_inv_def using len' dates' rows' buys' idx' by simp
qed

lemma backtester_run_run_inv:
  assumes run: "backtester_run data_dict initial_cash weights = Inr s"
    and d: "distinct (p_index (ledger s))"
  shows "run_inv (case weights of None \<Rightarrow> default_weights data_dict | Some w \<Rightarrow> w)
           (max 1 (length (p_index (ledger s)))) s"
  using run
proof (rule backtester_run_cases)
  fix ticker0 :: string and data0 :: frame and rest :: "(string \<times> frame) list"
  let ?ws = "case weights of None \<Rightarrow> default_weights data_dict | Some w \<Rightarrow> w"
  let ?s0 = "\<lparr> ledger = initial_portfolio (index data0) initial_cash,
               held = map_of (map (\<lambda>(ticker, data). (ticker, Fin 0)) data_dict),
               trade_log = [] \<rparr>"
  let ?n = "length (index data0)"
  assume fold: "foldE (time_step ?ws data_dict) [1 ..< ?n] ?s0 = Inr s"
  have idx: "p_index (ledger s) = index data0"
    using outer_loop_trades [OF fold] by (simp add: initial_portfolio_def)
  have r0: "run_inv ?ws 1 ?s0"
    unfolding run_inv_def by (simp add: initial_portfolio_def)
  show ?thesis
  proof (cases "1 \<le> ?n")
    case False
    then have "s = ?s0" using fold by simp
    then show ?thesis using r0 False idx by simp
  next
    case True
    define R where "R = (\<lambda>j (t :: bt_state). run_inv ?ws j t \<and> p_index (ledger t) = index data0)"
    have "R ?n s"
    proof (rule foldE_upt_invariant [where R = R, OF fold])
      show "R 1 ?s0" unfolding R_def using r0 by (simp add: initial_portfolio_def)
      show "1 \<le> ?n" by (rule True)
    next
      fix j t t'
      assume j: "1 \<le> j" "j < ?n" and r: "R j t"
        and step: "time_step ?ws data_dict j t = Inr t'"
      have "run_inv ?ws (Suc j) t' \<and> p_index (ledger t') = p_index (ledger t)"
      proof (rule time_step_run_inv [OF _ _ _ _ step])
        show "distinct (p_index (ledger t))" using r d idx unfolding R_def by simp
        show "0 < j" using j by simp
        show "j < length (p_index (ledger t))" using r j unfolding R_def by simp
        show "run_inv ?ws j t" using r unfolding R_def by simp
      qed
      then show "R (Suc j) t'" using r unfolding R_def by simp
    qed
    then show ?thesis using True idx unfolding R_def by (simp add: max_def)
  qed
qed

lemma example_run:
  "backtester_run example_sell_then_buy (Fin 100) None
     = Inr \<lparr> ledger = \<lparr> p_index = [0, 1, 2], Holdings = [Fin 0, Fin 50, Fin 100],
                         Cash = [Fin 100, Fin 50, Fin 100],
                         Total = [Fin 100, Fin 100, Fin 200] \<rparr>,
             held = [''A'' \<mapsto> Fin 0, ''B'' \<mapsto> Fin 10],
             trade_log =
               [\<lparr> t_date = 1, t_ticker = ''A'', t_action = BUY,
                  t_shares = Fin 5, t_price = Fin 10, t_value = Fin 50 \<rparr>,
                \<lparr> t_date = 2, t_ticker = ''A'', t_action = SELL,
                  t_shares = Fin 5, t_price = Fin 30, t_value = Fin 150 \<rparr>,
                \<lparr> t_date = 2, t_ticker = ''B'', t_action = BUY,
                  t_shares = Fin 10, t_price = Fin 10, t_value = Fin 100 \<rparr>] \<rparr>"
  by (simp add: example_eval bt_eval fun_upd_twist)

section \<open>Properties of the risk manager\<close>

text \<open>
  C4 (as the code has it). With \<open>available_cash = 100\<close> and the risk parameters of
  \<open>Config\<close>, a BUY of 0.5 shares at price 5 is rejected as too small (trade value 2.5,
  below the minimum of 10). A BUY of 5 shares at price 10 passes the cash check and the
  minimum size, and is then rejected by the position size check whatever non-negative
  number of shares of the ticker is already held: the position value, at least 50, is
  above \<open>available_cash * MAX_POSITION_SIZE = 10\<close>. A BUY of 1 share at price 10 with
  no shares held is accepted.
\<close>

theorem validate_trade_scenario:
  assumes "positions_get positions t = Fin h" and "0 \<le> h"
  shows "validate_trade Config_risk_manager t (Fin (1 / 2)) (Fin 5) ''buy'' (Fin 100) positions
           = (False, Trade_too_small (Fin (5 / 2)))
       \<and> reason_prefix (Trade_too_small (Fin (5 / 2))) = ''Trade too small: $''
       \<and> validate_trade Config_risk_manager t (Fin 5) (Fin 10) ''buy'' (Fin 100) positions
           = (False, Position_too_large (Fin ((h + 5) * 10)))
       \<and> validate_trade Config_risk_manager t (Fin 1) (Fin 10) ''buy'' (Fin 100) Map.empty
           = (True, Trade_valid)"
  using assms
  by (simp add: validate_trade_def Config_risk_manager_def fl_gt_def positions_get_def)

theorem validate_trade_scenario_witness:
  "validate_trade Config_risk_manager ''AAPL'' (Fin (1 / 2)) (Fin 5) ''buy'' (Fin 100) Map.empty
     = (False, Trade_too_small (Fin (5 / 2)))
   \<and> validate_trade Config_risk_manager ''AAPL'' (Fin 5) (Fin 10) ''buy'' (Fin 100) Map.empty
     = (False, Position_too_large (Fin 50))"
  using validate_trade_scenario [of Map.empty "''AAPL''" 0]
  by (simp add: positions_get_def)

text \<open>
  The claim's second half, that the BUY of 5 shares at price 10 is accepted, fails: the
  call returns \<open>False\<close> with the message "Position too large".
\<close>

theorem validate_trade_accept_counterexample:
  "\<not> fst (validate_trade Config_risk_manager ''AAPL'' (Fin 5) (Fin 10) ''buy'' (Fin 100) Map.empty)
   \<and> reason_prefix
        (snd (validate_trade Config_risk_manager ''AAPL'' (Fin 5) (Fin 10) ''buy'' (Fin 100) Map.empty))
       = ''Position too large: $''"
  by (simp add: validate_trade_def Config_risk_manager_def fl_gt_def positions_get_def)

section \<open>Properties of the backtester\<close>

text \<open>
  C1. Whenever \<open>backtester\<close> returns, the three columns of the ledger have the length
  of its index, and in every row \<open>Total\<close> is the floating-point sum of \<open>Cash\<close> and
  \<open>Holdings\<close>: the row holds exactly the value the program computed as
  \<open>current_cash + holdings_value\<close>, so that \<open>total == cash + holdings\<close> holds as a
  comparison of floats in every row whose total is not NaN. When the index labels are
  distinct, the first row is the initial row: cash \<open>initial_cash\<close>, holdings 0, total
  \<open>initial_cash\<close>.
\<close>

theorem ledger_identity:
  assumes "backtester data_dict initial_cash weights = Inr (p, m, ts)"
  shows "length (Cash p) = length (Total p) \<and> length (Holdings p) = length (Total p)
       \<and> length (p_index p) = length (Total p)
       \<and> (\<forall>i < length (Total p).
            Total p ! i = fl_add (Cash p ! i) (Holdings p ! i)
            \<and> (\<not> is_nan (Total p ! i) \<longrightarrow>
                 fl_eq (Total p ! i) (fl_add (Cash p ! i) (Holdings p ! i))))
       \<and> (distinct (p_index p) \<and> Total p \<noteq> [] \<longrightarrow>
            Cash p ! 0 = initial_cash \<and> Holdings p ! 0 = Fin 0 \<and> Total p ! 0 = initial_cash)"
proof -
  from assms obtain s where run: "backtester_run data_dict initial_cash weights = Inr s"
    and p: "p = ledger s"
    unfolding backtester_def by (auto simp: and_then_Inr_iff)
  note inv = backtester_run_invariant [OF run]
  have ok: "ledger_ok p" using inv p by simp
  have len: "length (Cash p) = length (Total p)" "length (Holdings p) = length (Total p)"
    "length (p_index p) = length (Total p)"
    using ok unfolding ledger_ok_def by simp_all
  have rows: "Total p ! i = fl_add (Cash p ! i) (Holdings p ! i)" if "i < length (Total p)" for i
  proof -
    have "Total p ! i = map (\<lambda>(c, h). fl_add c h) (zip (Cash p) (Holdings p)) ! i"
      using ok unfolding ledger_ok_def by simp
    also have "\<dots> = fl_add (Cash p ! i) (Holdings p ! i)"
      using len that by simp
    finally show ?thesis .
  qed
  have row0: "Cash p ! 0 = initial_cash \<and> Holdings p ! 0 = Fin 0 \<and> Total p ! 0 = initial_cash"
    if "distinct (p_index p)" "Total p \<noteq> []"
  proof -
    have "p_index p \<noteq> []" using that(2) len(3) by auto
    then show ?thesis using inv that(1) p unfolding row0_is_def by simp
  qed
  show ?thesis
    using len rows row0 by (simp add: fl_eq_refl fl_add_zero_right)
qed

theorem ledger_identity_witness:
  "\<exists>p m ts. backtester example_one_ticker (Fin 100) None = Inr (p, m, ts)
     \<and> Cash p = [Fin 100, Fin 0, Fin 200]
     \<and> Holdings p = [Fin 0, Fin 100, Fin 0]
     \<and> Total p = [Fin 100, Fin 100, Fin 200]
     \<and> Total p ! 1 = fl_add (Cash p ! 1) (Holdings p ! 1)
     \<and> Total p ! 2 = fl_add (Cash p ! 2) (Holdings p ! 2)"
proof -
  have "\<exists>s. backtester_run example_one_ticker (Fin 100) None = Inr s
          \<and> ledger s = \<lparr> p_index = [0, 1, 2], Holdings = [Fin 0, Fin 100, Fin 0],
                          Cash = [Fin 100, Fin 0, Fin 200],
                          Total = [Fin 100, Fin 100, Fin 200] \<rparr>"
    by (simp add: example_one_ticker_def bt_eval)
  then obtain s where run: "backtester_run example_one_ticker (Fin 100) None = Inr s"
    and l: "ledger s = \<lparr> p_index = [0, 1, 2], Holdings = [Fin 0, Fin 100, Fin 0],
                          Cash = [Fin 100, Fin 0, Fin 200],
                          Total = [Fin 100, Fin 100, Fin 200] \<rparr>"
    by blast
  obtain ts where ts: "calculate_trade_statistics (trade_log s) (ledger s) = Inr ts"
    by (cases "trade_log s = []")
       (simp_all add: calculate_trade_statistics_def l iloc_def and_then_def Let_def)
  have bt: "backtester example_one_ticker (Fin 100) None
              = Inr (ledger s, calculate_metrics (ledger s), ts)"
    by (simp add: backtester_def run ts and_then_def)
  from ledger_identity [OF bt] show ?thesis
    using bt l by simp
qed

text \<open>
  C8. On a ledger of two rows with the same total, the return series is the single
  value 0, whose sample standard deviation is NaN; the guard \<open>returns.std() == 0\<close> is
  false and \<open>calculate_metrics\<close> returns the Sharpe ratio \<open>0 / NaN * sqrt(252)\<close>, which
  is NaN and not 0.
\<close>

theorem sharpe_two_rows:
  "calculate_metrics \<lparr> p_index = [0, 1], Holdings = [Fin 0, Fin 0],
                        Cash = [Fin 100, Fin 100], Total = [Fin 100, Fin 100] \<rparr>
     = \<lparr> sharpe_ratio = NaN, max_drawdown = Fin 0 \<rparr>"
  by (simp add: metrics_eval)

text \<open>
  C9 (as the code has it). The replay loop never consults the risk manager: whenever
  \<open>backtester\<close>'s loop returns, the dates, tickers and actions of its trade log are
  exactly the BUY and SELL events of the instruments, row after row in the dictionary's
  order. One record is appended for every event, whatever its value and whatever is held.
\<close>

theorem trade_log_is_every_event:
  assumes "backtester_run data_dict initial_cash weights = Inr s"
    and "data_dict = (ticker0, data0) # rest"
  shows "map trade_key (trade_log s)
           = concat (map (\<lambda>i. step_events data_dict (index data0 ! i) i)
                       [1 ..< length (index data0)])"
  using assms(1)
proof (rule backtester_run_cases)
  fix ticker1 :: string and data1 :: frame and rest1 :: "(string \<times> frame) list"
  let ?ws = "case weights of None \<Rightarrow> default_weights data_dict | Some w \<Rightarrow> w"
  assume dd: "data_dict = (ticker1, data1) # rest1"
    and fold: "foldE (time_step ?ws data_dict) [1 ..< length (index data1)]
       \<lparr> ledger = initial_portfolio (index data1) initial_cash,
         held = map_of (map (\<lambda>(ticker, data). (ticker, Fin 0)) data_dict),
         trade_log = [] \<rparr> = Inr s"
  have "data1 = data0" using dd assms(2) by simp
  then show ?thesis
    using outer_loop_trades [OF fold] by (simp add: initial_portfolio_def)
qed

theorem trade_log_is_every_event_witness:
  "\<exists>s. backtester_run example_one_ticker (Fin 100) None = Inr s
      \<and> map trade_key (trade_log s) = [(1, ''A'', BUY), (2, ''A'', SELL)]"
proof -
  obtain s where run: "backtester_run example_one_ticker (Fin 100) None = Inr s"
    by (simp add: example_one_ticker_def bt_eval)
  from trade_log_is_every_event [OF run, unfolded example_one_ticker_def, OF refl]
  show ?thesis using run
    by (simp add: step_events_def event_at_def upt_rec example_one_ticker_def)
qed

text \<open>
  The claim that every record is a trade the risk manager accepts, and that none is
  created for a SELL of zero shares, fails: a SELL event with nothing held appends a
  record of 0 shares and value 0, which \<open>validate_trade\<close> rejects as too small.
\<close>

theorem unvalidated_trade_counterexample:
  "\<exists>s tr. backtester_run example_sell_flat (Fin 10000) None = Inr s
      \<and> trade_log s = [tr]
      \<and> t_action tr = SELL \<and> t_shares tr = Fin 0 \<and> t_value tr = Fin 0
      \<and> validate_trade Config_risk_manager (t_ticker tr) (t_shares tr) (t_price tr) ''sell''
           (Fin 10000) [''A'' \<mapsto> Fin 0]
         = (False, Trade_too_small (Fin 0))"
  by (simp add: example_sell_flat_def bt_eval validate_trade_def Config_risk_manager_def
        fl_gt_def positions_get_def)

text \<open>
  C3 (as the code has it). The \<open>Cash\<close> column is a running balance. Whenever the replay
  loop returns and the index labels are distinct, the cash of every row \<open>i > 0\<close> is the
  cash of row \<open>i - 1\<close> after the trades recorded for the date of the row: each BUY
  subtracts the value of its record and each SELL adds it, one after another in the order
  of the log, with the floating-point operations of the loop. Nothing bounds what the
  BUYs of a step subtract by the cash at the start of the step. The statement relates
  values the program computed to one another; its proof uses no property of the
  arithmetic operations.
\<close>

theorem cash_is_running_balance:
  assumes run: "backtester_run data_dict initial_cash weights = Inr s"
    and d: "distinct (p_index (ledger s))"
    and i: "0 < i" "i < length (Cash (ledger s))"
  shows "Cash (ledger s) ! i
           = running_cash (Cash (ledger s) ! (i - 1))
               (trades_on (p_index (ledger s) ! i) (trade_log s))"
proof -
  note inv = backtester_run_run_inv [OF run d]
  from inv have len: "length (Cash (ledger s)) = length (p_index (ledger s))"
    unfolding run_inv_def by blast
  then have "i < max 1 (length (p_index (ledger s)))" using i by simp
  then show ?thesis using inv i(1) unfolding run_inv_def by blast
qed

theorem cash_is_running_balance_witness:
  "\<exists>s. backtester_run example_sell_then_buy (Fin 100) None = Inr s
      \<and> Cash (ledger s) ! 1 = Fin 50
      \<and> map t_value (trades_on 2 (trade_log s)) = [Fin 150, Fin 100]
      \<and> Cash (ledger s) ! 2 = running_cash (Fin 50) (trades_on 2 (trade_log s))
      \<and> Cash (ledger s) ! 2 = Fin 100"
proof -
  let ?s = "\<lparr> ledger = \<lparr> p_index = [0, 1, 2], Holdings = [Fin 0, Fin 50, Fin 100],
                         Cash = [Fin 100, Fin 50, Fin 100],
                         Total = [Fin 100, Fin 100, Fin 200] \<rparr>,
             held = [''A'' \<mapsto> Fin 0, ''B'' \<mapsto> Fin 10],
             trade_log =
               [\<lparr> t_date = 1, t_ticker = ''A'', t_action = BUY,
                  t_shares = Fin 5, t_price = Fin 10, t_value = Fin 50 \<rparr>,
                \<lparr> t_date = 2, t_ticker = ''A'', t_action = SELL,
                  t_shares = Fin 5, t_price = Fin 30, t_value = Fin 150 \<rparr>,
                \<lparr> t_date = 2, t_ticker = ''B'', t_action = BUY,
                  t_shares = Fin 10, t_price = Fin 10, t_value = Fin 100 \<rparr>] \<rparr>"
  have "Cash (ledger ?s) ! 2
          = running_cash (Cash (ledger ?s) ! (2 - 1))
              (trades_on (p_index (ledger ?s) ! 2) (trade_log ?s))"
    by (rule cash_is_running_balance [OF example_run]) simp_all
  then show ?thesis
    using example_run by (simp add: trades_on_def)
qed

text \<open>
  The claim that the BUYs of a step never spend more than the cash at the start of the
  step fails when a SELL of the same step is iterated first: with equal weights, the
  third day starts with cash 50, the SELL of \<open>A\<close> raises the running cash to 200, and
  the BUY of \<open>B\<close> spends 100. Every value of this run is a small integer or a half.
\<close>

theorem buy_exceeds_start_cash_counterexample:
  "\<exists>s. backtester_run example_sell_then_buy (Fin 100) None = Inr s
      \<and> weights_ok (default_weights example_sell_then_buy) example_sell_then_buy
      \<and> Cash (ledger s) ! 1 = Fin 50
      \<and> spent (trades_on 2 (trade_log s)) = 100
      \<and> \<not> spent (trades_on 2 (trade_log s)) \<le> fin_val (Cash (ledger s) ! 1)"
  using example_weights_ok
  by (simp add: example_eval bt_eval spent_def trades_on_def)

text \<open>
  C2 (as the code has it). A BUY is allocated \<open>weight\<close> times the running cash, not the
  cash at the start of the step. Whenever the replay loop returns and the index labels
  are distinct, every BUY record of the log belongs to a row \<open>m > 0\<close>, and its shares are
  \<open>running * weight / price\<close> and its value \<open>shares * price\<close>, where \<open>running\<close> is
  the cash of row \<open>m - 1\<close> after the records of the same date that precede it in the
  log: the trades of the instruments iterated before it in the step. For a BUY with no
  such record before it, \<open>running\<close> is the cash at the start of the step. The
  statement relates values the program computed to one another; its proof uses no
  property of the arithmetic operations.
\<close>

theorem buy_draws_on_running_cash:
  assumes run: "backtester_run data_dict initial_cash weights = Inr s"
    and d: "distinct (p_index (ledger s))"
    and k: "k < length (trade_log s)" and b: "t_action (trade_log s ! k) = BUY"
  shows "\<exists>m w. 0 < m \<and> m < length (p_index (ledger s))
           \<and> t_date (trade_log s ! k) = p_index (ledger s) ! m
           \<and> (case weights of None \<Rightarrow> default_weights data_dict | Some ws \<Rightarrow> ws)
               (t_ticker (trade_log s ! k)) = Some w
           \<and> t_shares (trade_log s ! k)
               = fl_div (fl_mul (running_cash (Cash (ledger s) ! (m - 1))
                                   (trades_on (t_date (trade_log s ! k))
                                      (take k (trade_log s)))) w)
                   (t_price (trade_log s ! k))
           \<and> t_value (trade_log s ! k)
               = fl_mul (t_shares (trade_log s ! k)) (t_price (trade_log s ! k))"
proof -
  let ?ws = "case weights of None \<Rightarrow> default_weights data_dict | Some ws \<Rightarrow> ws"
  let ?tr = "trade_log s ! k"
  from backtester_run_run_inv [OF run d] k b
  obtain m where m: "0 < m" "m < max 1 (length (p_index (ledger s)))"
    "t_date ?tr = p_index (ledger s) ! m"
    and a: "allocated_from ?ws
              (running_cash (Cash (ledger s) ! (m - 1))
                 (trades_on (t_date ?tr) (take k (trade_log s)))) ?tr"
    unfolding run_inv_def by blast
  have "m < length (p_index (ledger s))" using m(1,2) by (simp add: max_def split: if_splits)
  moreover from a obtain w where "?ws (t_ticker ?tr) = Some w"
    "t_shares ?tr = fl_div (fl_mul (running_cash (Cash (ledger s) ! (m - 1))
                                   (trades_on (t_date ?tr) (take k (trade_log s)))) w)
                      (t_price ?tr)"
    "t_value ?tr = fl_mul (t_shares ?tr) (t_price ?tr)"
    unfolding allocated_from_def by (auto split: option.splits)
  ultimately show ?thesis using m(1,3) by blast
qed

theorem buy_draws_on_running_cash_witness:
  "\<exists>s. backtester_run example_sell_then_buy (Fin 100) None = Inr s
      \<and> t_ticker (trade_log s ! 2) = ''B'' \<and> t_action (trade_log s ! 2) = BUY
      \<and> Cash (ledger s) ! 1 = Fin 50
      \<and> running_cash (Cash (ledger s) ! 1) (trades_on 2 (take 2 (trade_log s))) = Fin 200
      \<and> t_shares (trade_log s ! 2)
          = fl_div (fl_mul (running_cash (Cash (ledger s) ! 1)
                              (trades_on 2 (take 2 (trade_log s)))) (Fin (1 / 2)))
              (Fin 10)
      \<and> t_value (trade_log s ! 2) = Fin 100"
proof -
  let ?s = "\<lparr> ledger = \<lparr> p_index = [0, 1, 2], Holdings = [Fin 0, Fin 50, Fin 100],
                         Cash = [Fin 100, Fin 50, Fin 100],
                         Total = [Fin 100, Fin 100, Fin 200] \<rparr>,
             held = [''A'' \<mapsto> Fin 0, ''B'' \<mapsto> Fin 10],
             trade_log =
               [\<lparr> t_date = 1, t_ticker = ''A'', t_action = BUY,
                  t_shares = Fin 5, t_price = Fin 10, t_value = Fin 50 \<rparr>,
                \<lparr> t_date = 2, t_ticker = ''A'', t_action = SELL,
                  t_shares = Fin 5, t_price = Fin 30, t_value = Fin 150 \<rparr>,
                \<lparr> t_date = 2, t_ticker = ''B'', t_action = BUY,
                  t_shares = Fin 10, t_price = Fin 10, t_value = Fin 100 \<rparr>] \<rparr>"
  have "\<exists>m w. 0 < m \<and> m < length (p_index (ledger ?s))
           \<and> t_date (trade_log ?s ! 2) = p_index (ledger ?s) ! m
           \<and> (case None of None \<Rightarrow> default_weights example_sell_then_buy | Some ws \<Rightarrow> ws)
               (t_ticker (trade_log ?s ! 2)) = Some w
           \<and> t_shares (trade_log ?s ! 2)
               = fl_div (fl_mul (running_cash (Cash (ledger ?s) ! (m - 1))
                                   (trades_on (t_date (trade_log ?s ! 2))
                                      (take 2 (trade_log ?s)))) w)
                   (t_price (trade_log ?s ! 2))
           \<and> t_value (trade_log ?s ! 2)
               = fl_mul (t_shares (trade_log ?s ! 2)) (t_price (trade_log ?s ! 2))"
    by (rule buy_draws_on_running_cash [OF example_run]) simp_all
  then show ?thesis
    using example_run
    by (simp add: trades_on_def running_cash_def apply_trade_def)
qed

text \<open>
  The claim fails on both counts when a step has a SELL and a BUY. With \<open>A\<close> iterated
  first, the third day starts with cash 50, the SELL of \<open>A\<close> brings 150 and the BUY of
  \<open>B\<close> (weight 1/2) is allocated 100, not 25; the row is cash 100, holdings 100. With
  \<open>B\<close> iterated first its BUY is allocated 25 and the row is cash 175, holdings 25.
\<close>

theorem order_dependent_counterexample:
  "\<exists>s1 s2. backtester_run example_sell_then_buy (Fin 100) None = Inr s1
      \<and> backtester_run example_buy_then_sell (Fin 100) None = Inr s2
      \<and> set example_buy_then_sell = set example_sell_then_buy
      \<and> default_weights example_sell_then_buy ''B'' = Some (Fin (1 / 2))
      \<and> Cash (ledger s1) = [Fin 100, Fin 50, Fin 100]
      \<and> Cash (ledger s2) = [Fin 100, Fin 50, Fin 175]
      \<and> Holdings (ledger s1) = [Fin 0, Fin 50, Fin 100]
      \<and> Holdings (ledger s2) = [Fin 0, Fin 50, Fin 25]
      \<and> map t_value (trades_on 2 (trade_log s1)) = [Fin 150, Fin 100]
      \<and> map t_value (trades_on 2 (trade_log s2)) = [Fin 25, Fin 150]"
proof -
  have "set example_buy_then_sell = set example_sell_then_buy"
    by (auto simp: example_sell_then_buy_def example_buy_then_sell_def)
  then show ?thesis
    by (simp add: example_eval bt_eval trades_on_def)
qed

section \<open>Properties of the strategies\<close>

text \<open>
  C5 (as the code has it). For every strategy and every input frame with at least one
  row, the \<open>Position\<close> column of the frame \<open>generate_signals\<close> returns has the length of
  the input and its first entry is NaN, the value \<open>Series.diff()\<close> leaves where there is
  no previous row; no statement replaces it. It is not 0 (and it compares unequal to 0,
  2 and -2).
\<close>

theorem first_position_is_nan:
  assumes "generate_signals strat r h = (Inr d, h')" and "index (h ! r) \<noteq> []"
  shows "\<exists>pos. columns (h' ! d) ''Position'' = Some pos
           \<and> length pos = length (index (h ! r))
           \<and> pos ! 0 = NaN \<and> \<not> fl_eq (pos ! 0) (Fin 0)"
proof -
  from generate_signals_signal_ok [OF assms(1)] obtain signal where
    s: "length signal = length (index (h ! r))"
    and p: "columns (h' ! d) ''Position'' =
            Some (replace_eq (Fin (- 1)) (Fin (- 2)) (replace_eq (Fin 1) (Fin 2) (diff signal)))"
    unfolding signal_ok_def by blast
  have ne: "signal \<noteq> []" using s assms(2) by auto
  have "0 < length (diff signal)" using ne by (simp add: length_diff)
  then show ?thesis
    using p s diff_first [OF ne]
    by (simp add: replace_eq_nth length_replace_eq length_diff)
qed

theorem first_position_is_nan_witness:
  "map_option (\<lambda>pos. pos ! 0)
     (columns (snd (generate_signals (RSIStrategy 2 (Fin 70) (Fin 30)) 0
                      [price_frame [Fin 10, Fin 9, Fin 8, Fin 20]]) ! 1) ''Position'')
     = Some NaN"
proof -
  let ?h = "[price_frame [Fin 10, Fin 9, Fin 8, Fin 20]]"
  let ?g = "generate_signals (RSIStrategy 2 (Fin 70) (Fin 30)) 0 ?h"
  have g: "?g = (Inr 1, snd ?g)" by (simp add: sig_eval)
  have "index (?h ! 0) \<noteq> []" by (simp add: price_frame_def upt_rec)
  from first_position_is_nan [OF g this] show ?thesis by auto
qed

text \<open>
  The claim that the first entry is 0 fails on six flat closes with the SMA crossover
  strategy: the entry does not compare equal to 0.
\<close>

theorem first_position_counterexample:
  "map_option (\<lambda>pos. fl_eq (pos ! 0) (Fin 0))
     (columns (snd (generate_signals (SMACrossoverStrategy 2 3) 0
                      [price_frame [Fin 10, Fin 10, Fin 10, Fin 10, Fin 10, Fin 10]]) ! 1)
        ''Position'')
     = Some False"
  by (simp add: sig_eval)

text \<open>
  C6. For every strategy and every row \<open>t > 0\<close> of the returned frame, the \<open>Signal\<close>
  entries at \<open>t - 1\<close> and \<open>t\<close> are among \<open>-1, 0, 1\<close> and the \<open>Position\<close> entry at \<open>t\<close>
  is 2 when \<open>Signal[t] - Signal[t-1]\<close> is 1, -2 when it is -1, 0 when it is 0, and 2
  or -2 when it is 2 or -2.
\<close>

theorem position_is_clamped_delta:
  assumes "generate_signals strat r h = (Inr d, h')"
    and "0 < t" and "t < length (index (h ! r))"
  shows "\<exists>signal pos a b.
           columns (h' ! d) ''Signal'' = Some signal \<and> columns (h' ! d) ''Position'' = Some pos
         \<and> signal ! (t - 1) = Fin a \<and> signal ! t = Fin b
         \<and> a \<in> {- 1, 0, 1} \<and> b \<in> {- 1, 0, 1}
         \<and> (b - a = 1 \<longrightarrow> pos ! t = Fin 2)
         \<and> (b - a = - 1 \<longrightarrow> pos ! t = Fin (- 2))
         \<and> (b - a = 0 \<longrightarrow> pos ! t = Fin 0)
         \<and> (b - a = 2 \<longrightarrow> pos ! t = Fin 2)
         \<and> (b - a = - 2 \<longrightarrow> pos ! t = Fin (- 2))"
proof -
  from generate_signals_signal_ok [OF assms(1)] obtain signal where
    c: "columns (h' ! d) ''Signal'' = Some signal"
    and s: "length signal = length (index (h ! r))"
    and reg: "list_all is_regime signal"
    and p: "columns (h' ! d) ''Position'' =
            Some (replace_eq (Fin (- 1)) (Fin (- 2)) (replace_eq (Fin 1) (Fin 2) (diff signal)))"
    unfolding signal_ok_def by blast
  have t: "t < length signal" "t - 1 < length signal" using assms(2,3) s by simp_all
  from reg t obtain a b where ab: "signal ! (t - 1) = Fin a" "signal ! t = Fin b"
    "a \<in> {- 1, 0, 1}" "b \<in> {- 1, 0, 1}"
    unfolding list_all_length is_regime_def by (metis insertCI)
  have d: "diff signal ! t = Fin (b - a)"
    using diff_nth [OF assms(2) t(1)] ab by (simp add: fl_sub_def)
  have "replace_eq (Fin (- 1)) (Fin (- 2)) (replace_eq (Fin 1) (Fin 2) (diff signal)) ! t
          = (if b - a = 1 then Fin 2 else if b - a = - 1 then Fin (- 2) else Fin (b - a))"
    using t(1) d by (simp add: replace_eq_nth length_replace_eq length_diff)
  then show ?thesis using c p ab by auto
qed

theorem position_is_clamped_delta_witness:
  "columns (snd (generate_signals (RSIStrategy 2 (Fin 70) (Fin 30)) 0
                   [price_frame [Fin 10, Fin 9, Fin 8, Fin 20]]) ! 1) ''Signal''
     = Some [Fin 0, Fin 0, Fin 1, Fin (- 1)]
   \<and> map_option (\<lambda>pos. pos ! 3)
       (columns (snd (generate_signals (RSIStrategy 2 (Fin 70) (Fin 30)) 0
                        [price_frame [Fin 10, Fin 9, Fin 8, Fin 20]]) ! 1) ''Position'')
       = Some (Fin (- 2))"
proof -
  let ?h = "[price_frame [Fin 10, Fin 9, Fin 8, Fin 20]]"
  let ?g = "generate_signals (RSIStrategy 2 (Fin 70) (Fin 30)) 0 ?h"
  have g: "?g = (Inr 1, snd ?g)" by (simp add: sig_eval)
  have s: "columns (snd ?g ! 1) ''Signal'' = Some [Fin 0, Fin 0, Fin 1, Fin (- 1)]"
    by (simp add: sig_eval)
  have "3 < length (index (?h ! 0))" by (simp add: price_frame_def)
  from position_is_clamped_delta [OF g _ this] s show ?thesis by auto
qed

text \<open>
  C7 (as the code has it). At a row where the rolling average loss is zero, the \<open>RSI\<close>
  column of the frame \<open>RSIStrategy.generate_signals\<close> returns is 100 when the rolling
  average gain is positive (finite or infinite), and NaN when the rolling average gain
  is zero too: \<open>rs\<close> is then \<open>0 / 0\<close>.
\<close>

theorem rsi_zero_loss:
  assumes gen: "generate_signals (RSIStrategy w ob os) r h = (Inr d, h')"
    and close: "columns (h ! r) ''Close'' = Some close"
    and gain: "rsi_gain w close = Inr gain" and loss: "rsi_loss w close = Inr loss"
    and i: "i < length close" and zero: "loss ! i = Fin 0"
  shows "\<exists>rsi. columns (h' ! d) ''RSI'' = Some rsi \<and> length rsi = length close
           \<and> (\<forall>g. gain ! i = Fin g \<and> 0 < g \<longrightarrow> rsi ! i = Fin 100)
           \<and> (gain ! i = PInf \<longrightarrow> rsi ! i = Fin 100)
           \<and> (gain ! i = Fin 0 \<longrightarrow> rsi ! i = NaN)"
  using gen
proof (rule generate_signals_cases)
  fix e :: py_error assume "Inr d = Inl e"
  then show ?thesis by simp
next
  fix data' assume d: "Inr d = Inr (length h)" and h': "h' = h @ [data']"
    and body: "signals_body (RSIStrategy w ob os) (h ! r) = Inr data'"
  from signals_body_rsi [OF body] close obtain rsi where
    v: "rsi_values w close = Inr rsi" and c: "columns data' ''RSI'' = Some rsi"
    by auto
  have rsi: "rsi = map (\<lambda>(g, l). rsi_of g l) (zip gain loss)"
    using v gain loss by (simp add: rsi_values_def and_then_def)
  have len: "length gain = length close" "length loss = length close"
    using length_rsi_gain [OF gain] length_rsi_loss [OF loss] by simp_all
  have nth: "rsi ! i = rsi_of (gain ! i) (Fin 0)"
    using i len zero unfolding rsi by simp
  have "columns (h' ! d) ''RSI'' = Some rsi" using c d h' by simp
  moreover have "length rsi = length close" unfolding rsi using len by simp
  ultimately show ?thesis using nth by (auto simp: rsi_of_zero_loss)
qed

theorem rsi_zero_loss_witness:
  "map_option (\<lambda>rsi. rsi ! 2)
     (columns (snd (generate_signals (RSIStrategy 2 (Fin 70) (Fin 30)) 0
                      [price_frame [Fin 10, Fin 11, Fin 12]]) ! 1) ''RSI'')
     = Some (Fin 100)"
proof -
  let ?h = "[price_frame [Fin 10, Fin 11, Fin 12]]"
  let ?g = "generate_signals (RSIStrategy 2 (Fin 70) (Fin 30)) 0 ?h"
  have g: "?g = (Inr 1, snd ?g)"
    by (simp add: sig_eval)
  have "\<exists>rsi. columns (snd ?g ! 1) ''RSI'' = Some rsi \<and> length rsi = 3
           \<and> (\<forall>g. [NaN, Fin (1 / 2), Fin 1] ! 2 = Fin g \<and> 0 < g \<longrightarrow> rsi ! 2 = Fin 100)
           \<and> ([NaN, Fin (1 / 2), Fin 1] ! 2 = PInf \<longrightarrow> rsi ! 2 = Fin 100)
           \<and> ([NaN, Fin (1 / 2), Fin 1] ! 2 = Fin 0 \<longrightarrow> rsi ! 2 = NaN)"
    using rsi_zero_loss [OF g, of "[Fin 10, Fin 11, Fin 12]" "[NaN, Fin (1 / 2), Fin 1]"
        "[NaN, Fin 0, Fin 0]" 2]
    by (simp add: sig_eval)
  then show ?thesis by auto
qed

text \<open>
  The claim that the value is 100 also when the rolling average gain is zero fails on
  three equal closes with window 2: at the last row the average loss is 0 and the RSI
  is NaN.
\<close>

theorem rsi_flat_counterexample:
  "rsi_loss 2 [Fin 10, Fin 10, Fin 10] = Inr [NaN, Fin 0, Fin 0]
   \<and> map_option (\<lambda>rsi. rsi ! 2)
       (columns (snd (generate_signals (RSIStrategy 2 (Fin 70) (Fin 30)) 0
                        [price_frame [Fin 10, Fin 10, Fin 10]]) ! 1) ''RSI'')
       = Some NaN"
  by (simp add: sig_eval)

text \<open>
  C10. \<open>generate_signals\<close> of every strategy leaves every frame that existed before the
  call as it was, the input among them, whether it returns or raises; it allocates one
  frame, and the reference it returns is that new frame, never the input.
\<close>

theorem generate_signals_frame:
  assumes "r < length h" and "generate_signals strat r h = (res, h')"
  shows "h' ! r = h ! r \<and> take (length h) h' = h \<and> length h' = Suc (length h)
       \<and> (\<forall>d. res = Inr d \<longrightarrow> d = length h \<and> d \<noteq> r \<and> d < length h')"
  using assms(2)
proof (rule generate_signals_cases)
  fix e assume "h' = h @ [h ! r]" "res = Inl e"
  then show ?thesis using assms(1) by (simp add: nth_append)
next
  fix data' assume "h' = h @ [data']" "res = Inr (length h)"
  then show ?thesis using assms(1) by (auto simp: nth_append)
qed

theorem generate_signals_frame_witness:
  "fst (generate_signals (SMACrossoverStrategy 2 3) 0
          [price_frame [Fin 10, Fin 10, Fin 10, Fin 10, Fin 10, Fin 10]]) = Inr 1
   \<and> snd (generate_signals (SMACrossoverStrategy 2 3) 0
          [price_frame [Fin 10, Fin 10, Fin 10, Fin 10, Fin 10, Fin 10]]) ! 0
       = price_frame [Fin 10, Fin 10, Fin 10, Fin 10, Fin 10, Fin 10]"
proof -
  let ?h = "[price_frame [Fin 10, Fin 10, Fin 10, Fin 10, Fin 10, Fin 10]]"
  let ?g = "generate_signals (SMACrossoverStrategy 2 3) 0 ?h"
  have "fst ?g = Inr 1" by (simp add: sig_eval)
  moreover have "snd ?g ! 0 = ?h ! 0"
    using generate_signals_frame [of 0 ?h "SMACrossoverStrategy 2 3" "fst ?g" "snd ?g"] by simp
  ultimately show ?thesis by simp
qed

end
